theory Spec2Isabelle
  imports Main "HOL-Library.Multiset"
begin

section \<open>Data model of \<^verbatim>\<open>app.py\<close>\<close>

text \<open>
  The request dictionaries of \<^verbatim>\<open>TimetableGenerator\<close> are records; the prefix of a field
  names the dictionary it belongs to (\<open>t_\<close> teacher, \<open>s_\<close> subject, \<open>e_\<close> timetable
  entry). A key the code reads with \<^verbatim>\<open>.get(key, default)\<close> is optional: the
  availability dictionary is a map (no key at all is the empty map), the semester and
  the sessions per week are options. Python integers are unbounded, hence \<open>int\<close>.
\<close>

record teacher =
  t_name :: string
  t_subjects :: "string list"
  t_availability :: "string \<rightharpoonup> string list"

record subject =
  s_name :: string
  s_semester :: "string option"
  s_sessions_per_week :: "int option"

record entry =
  e_day :: string
  e_time_slot :: string
  e_subject :: string
  e_teacher :: string
  e_classroom :: string
  e_semester :: "string option"
  e_subject_color :: string

text \<open>
  The conflict dictionaries: the one appended by \<^verbatim>\<open>generate\<close> for sessions that
  found no place (semester, subjects, missing sessions, suggestions; its day and slot are
  \<^verbatim>\<open>None\<close>), and the one appended by \<^verbatim>\<open>detect_conflicts\<close> (type, the teacher,
  classroom or semester concerned, day, time slot, subjects).
\<close>

datatype clash_type = Teacher | Classroom | Student

datatype conflict =
  Unplaced string "string list" int "string list"
| Clash clash_type string string string "string list"

text \<open>The object \<^verbatim>\<open>self\<close>: the six constructor arguments, the timetable, the conflicts.\<close>

record generator =
  teachers :: "teacher list"
  subjects :: "subject list"
  classrooms :: "string list"
  time_slots :: "string list"
  days :: "string list"
  semesters :: "string list"
  timetable :: "entry list"
  conflicts :: "conflict list"

text \<open>
  The three occupancy dictionaries \<^verbatim>\<open>schedule[who][day][slot]\<close> and the load counter
  \<^verbatim>\<open>cohort_load[semester][day]\<close> are nested maps. The source of randomness behind
  \<^verbatim>\<open>random.shuffle\<close> is a tape of naturals, read from its head.
\<close>

type_synonym grid = "string \<rightharpoonup> (string \<rightharpoonup> (string \<rightharpoonup> bool))"

type_synonym load = "string \<rightharpoonup> (string \<rightharpoonup> int)"

type_synonym rng = "nat \<Rightarrow> nat"

text \<open>
  A run of \<^verbatim>\<open>generate\<close>: \<^verbatim>\<open>self\<close> together with the local variables its closures
  share.
\<close>

record run = generator +
  teacher_schedule :: grid
  classroom_schedule :: grid
  cohort_schedule :: grid
  cohort_load :: load
  rng :: rng

definition TimetableGenerator ::
  "teacher list \<Rightarrow> subject list \<Rightarrow> string list \<Rightarrow> string list \<Rightarrow> string list \<Rightarrow> string list
    \<Rightarrow> generator" where
  "TimetableGenerator ts ss cs sl ds sems =
     \<lparr>teachers = ts, subjects = ss, classrooms = cs, time_slots = sl, days = ds,
      semesters = sems, timetable = [], conflicts = []\<rparr>"

section \<open>Python primitives\<close>

text \<open>
  A result of type \<open>'a option\<close> is \<open>None\<close> where Python raises: the only exception the
  code can raise on typed input is the \<^verbatim>\<open>KeyError\<close> of \<^verbatim>\<open>d[k]\<close> at a missing key.
\<close>

definition grid_get :: "grid \<Rightarrow> string \<Rightarrow> string \<Rightarrow> string \<Rightarrow> bool option" where
  "grid_get g who day slot =
     (case g who of None \<Rightarrow> None
      | Some gd \<Rightarrow> (case gd day of None \<Rightarrow> None | Some gs \<Rightarrow> gs slot))"

definition grid_set :: "grid \<Rightarrow> string \<Rightarrow> string \<Rightarrow> string \<Rightarrow> bool \<Rightarrow> grid option" where
  "grid_set g who day slot v =
     (case g who of None \<Rightarrow> None
      | Some gd \<Rightarrow> (case gd day of None \<Rightarrow> None
                   | Some gs \<Rightarrow> Some (g(who \<mapsto> gd(day \<mapsto> gs(slot \<mapsto> v))))))"

text \<open>A dictionary comprehension \<^verbatim>\<open>{k(x): v(x) for x in xs}\<close>: a later item wins.\<close>

definition dict_comp :: "('a \<Rightarrow> 'k) \<Rightarrow> ('a \<Rightarrow> 'v) \<Rightarrow> 'a list \<Rightarrow> ('k \<rightharpoonup> 'v)" where
  "dict_comp k v xs = map_of (rev (map (\<lambda>x. (k x, v x)) xs))"

text \<open>A list comprehension \<^verbatim>\<open>[x for x in xs if p(x)]\<close> whose condition may raise.\<close>

fun filter_opt :: "('a \<Rightarrow> bool option) \<Rightarrow> 'a list \<Rightarrow> 'a list option" where
  "filter_opt p [] = Some []"
| "filter_opt p (x # xs) =
     (case p x of None \<Rightarrow> None
      | Some b \<Rightarrow> (case filter_opt p xs of None \<Rightarrow> None
                  | Some ys \<Rightarrow> Some (if b then x # ys else ys)))"

text \<open>\<^verbatim>\<open>str.lower\<close>, on the ASCII letters.\<close>

definition lower_char :: "char \<Rightarrow> char" where
  "lower_char c =
     (let n = (of_char c :: nat) in if 65 \<le> n \<and> n \<le> 90 then char_of (n + 32) else c)"

definition lower :: "string \<Rightarrow> string" where
  "lower s = map lower_char s"

text \<open>\<^verbatim>\<open>str(n)\<close> of a natural number.\<close>

fun str_nat :: "nat \<Rightarrow> string" where
  "str_nat n =
     (if n < 10 then [char_of (48 + n)] else str_nat (n div 10) @ [char_of (48 + n mod 10)])"

declare str_nat.simps [simp del]

text \<open>
  \<^verbatim>\<open>random.shuffle(x)\<close>: for \<open>i\<close> from \<open>len(x) - 1\<close> down to \<open>1\<close>, draw \<open>j\<close> below
  \<open>i + 1\<close> and swap \<open>x[i]\<close> and \<open>x[j]\<close>.
\<close>

fun shuffle_from :: "nat \<Rightarrow> 'a list \<Rightarrow> rng \<Rightarrow> 'a list \<times> rng" where
  "shuffle_from 0 xs r = (xs, r)"
| "shuffle_from (Suc i) xs r =
     (let j = r 0 mod (Suc i + 1)
      in shuffle_from i (xs[Suc i := xs ! j, j := xs ! Suc i]) (\<lambda>n. r (Suc n)))"

definition shuffle :: "'a list \<Rightarrow> rng \<Rightarrow> 'a list \<times> rng" where
  "shuffle xs r = shuffle_from (length xs - 1) xs r"

section \<open>The generator\<close>

definition subject_color :: "string \<Rightarrow> string" where
  "subject_color nm =
     ''hsl('' @ str_nat (foldl (\<lambda>h ch. (h * 31 + of_char ch) mod 360) 0 nm) @ '',65%,85%)''"

definition rank_slots :: "load \<Rightarrow> string \<Rightarrow> string \<Rightarrow> string \<Rightarrow> int" where
  "rank_slots cl day slot cohort =
     (let day_load = (case cl cohort of None \<Rightarrow> 0
                      | Some m \<Rightarrow> (case m day of None \<Rightarrow> 0 | Some n \<Rightarrow> n));
          contiguous_bonus = 0
      in day_load * 10 - contiguous_bonus)"

definition is_teacher_available :: "teacher \<Rightarrow> string \<Rightarrow> string \<Rightarrow> bool" where
  "is_teacher_available t day slot =
     (case t_availability t day of None \<Rightarrow> True | Some sl \<Rightarrow> slot \<in> set sl)"

text \<open>\<^verbatim>\<open>subject.get('semester', 'General')\<close> and \<^verbatim>\<open>subject.get('sessions_per_week', 2)\<close>.\<close>

definition semester_of :: "subject \<Rightarrow> string" where
  "semester_of s = (case s_semester s of None \<Rightarrow> ''General'' | Some x \<Rightarrow> x)"

definition sessions_of :: "subject \<Rightarrow> int" where
  "sessions_of s = (case s_sessions_per_week s of None \<Rightarrow> 2 | Some n \<Rightarrow> n)"

text \<open>
  The condition \<^verbatim>\<open>subject['name'].lower() in [s.lower() for s in t.get('subjects', [])]\<close>
  of both teacher comprehensions.
\<close>

definition teaches :: "teacher \<Rightarrow> subject \<Rightarrow> bool" where
  "teaches t s = (lower (s_name s) \<in> set (map lower (t_subjects t)))"

definition can_place :: "run \<Rightarrow> subject \<Rightarrow> teacher \<Rightarrow> string \<Rightarrow> string \<Rightarrow> string \<Rightarrow> bool option" where
  "can_place st s t classroom day slot =
     (case grid_get (teacher_schedule st) (t_name t) day slot of None \<Rightarrow> None
      | Some a \<Rightarrow> if a then Some False else
     (case grid_get (classroom_schedule st) classroom day slot of None \<Rightarrow> None
      | Some b \<Rightarrow> if b then Some False else
     (case grid_get (cohort_schedule st) (semester_of s) day slot of None \<Rightarrow> None
      | Some c \<Rightarrow> if c then Some False else
        if \<not> is_teacher_available t day slot then Some False else Some True)))"

definition load_incr :: "load \<Rightarrow> string \<Rightarrow> string \<Rightarrow> load" where
  "load_incr cl sem day =
     (let m = (case cl sem of None \<Rightarrow> Map.empty | Some m \<Rightarrow> m);
          n = (case m day of None \<Rightarrow> 0 | Some n \<Rightarrow> n)
      in cl(sem \<mapsto> m(day \<mapsto> n + 1)))"

definition new_entry :: "subject \<Rightarrow> teacher \<Rightarrow> string \<Rightarrow> string \<Rightarrow> string \<Rightarrow> entry" where
  "new_entry s t classroom day slot =
     \<lparr>e_day = day, e_time_slot = slot, e_subject = s_name s, e_teacher = t_name t,
      e_classroom = classroom, e_semester = Some (semester_of s),
      e_subject_color = subject_color (s_name s)\<rparr>"

definition place_entry :: "run \<Rightarrow> subject \<Rightarrow> teacher \<Rightarrow> string \<Rightarrow> string \<Rightarrow> string \<Rightarrow> run option" where
  "place_entry st s t classroom day slot =
     (case grid_set (teacher_schedule st) (t_name t) day slot True of None \<Rightarrow> None
      | Some ts \<Rightarrow>
     (case grid_set (classroom_schedule st) classroom day slot True of None \<Rightarrow> None
      | Some cs \<Rightarrow>
     (case grid_set (cohort_schedule st) (semester_of s) day slot True of None \<Rightarrow> None
      | Some hs \<Rightarrow>
        Some (st\<lparr>timetable := timetable st @ [new_entry s t classroom day slot],
                  teacher_schedule := ts, classroom_schedule := cs, cohort_schedule := hs,
                  cohort_load := load_incr (cohort_load st) (semester_of s) day\<rparr>))))"

text \<open>The pairs of the two nested loops \<^verbatim>\<open>for day in self.days: for slot in self.time_slots\<close>.\<close>

definition day_slots :: "'a generator_scheme \<Rightarrow> (string \<times> string) list" where
  "day_slots g = concat (map (\<lambda>d. map (\<lambda>s. (d, s)) (time_slots g)) (days g))"

text \<open>
  The closure \<^verbatim>\<open>suggest_alternatives\<close>. The two conditions of its comprehensions:
  \<^verbatim>\<open>and\<close> reads the teacher's grid only for a teacher of the subject.
\<close>

definition teacher_free :: "run \<Rightarrow> subject \<Rightarrow> string \<Rightarrow> string \<Rightarrow> teacher \<Rightarrow> bool option" where
  "teacher_free st s day slot t =
     (if \<not> teaches t s then Some False
      else (case grid_get (teacher_schedule st) (t_name t) day slot of None \<Rightarrow> None
            | Some occ \<Rightarrow> Some (\<not> occ \<and> is_teacher_available t day slot)))"

definition classroom_free :: "run \<Rightarrow> string \<Rightarrow> string \<Rightarrow> string \<Rightarrow> bool option" where
  "classroom_free st day slot c =
     (case grid_get (classroom_schedule st) c day slot of None \<Rightarrow> None
      | Some occ \<Rightarrow> Some (\<not> occ))"

fun suggest_scan ::
  "run \<Rightarrow> subject \<Rightarrow> int \<Rightarrow> (string \<times> string) list \<Rightarrow> string list \<Rightarrow> string list option" where
  "suggest_scan st s max_suggestions [] suggestions = Some suggestions"
| "suggest_scan st s max_suggestions ((day, slot) # rest) suggestions =
     (case filter_opt (teacher_free st s day slot) (teachers st) of None \<Rightarrow> None
      | Some available_teachers \<Rightarrow>
        if available_teachers = [] then suggest_scan st s max_suggestions rest suggestions else
     (case filter_opt (classroom_free st day slot) (classrooms st) of None \<Rightarrow> None
      | Some available_classrooms \<Rightarrow>
        if available_classrooms = [] then suggest_scan st s max_suggestions rest suggestions else
     (case grid_get (cohort_schedule st) (semester_of s) day slot of None \<Rightarrow> None
      | Some occ \<Rightarrow>
        if occ then suggest_scan st s max_suggestions rest suggestions else
        if int (length (suggestions @ [day @ '' @ '' @ slot])) \<ge> max_suggestions
        then Some (suggestions @ [day @ '' @ '' @ slot])
        else suggest_scan st s max_suggestions rest (suggestions @ [day @ '' @ '' @ slot]))))"

definition suggest_alternatives :: "run \<Rightarrow> subject \<Rightarrow> int \<Rightarrow> string list option" where
  "suggest_alternatives st s max_suggestions = suggest_scan st s max_suggestions (day_slots st) []"

text \<open>
  One pass of the \<^verbatim>\<open>while\<close> body, from the innermost loop outwards. Each loop returns
  \<^verbatim>\<open>assigned_here\<close> with the run it leaves behind.
\<close>

fun try_classrooms ::
  "run \<Rightarrow> subject \<Rightarrow> teacher \<Rightarrow> string \<Rightarrow> string \<Rightarrow> string list \<Rightarrow> (bool \<times> run) option" where
  "try_classrooms st s t day slot [] = Some (False, st)"
| "try_classrooms st s t day slot (c # cs) =
     (case can_place st s t c day slot of None \<Rightarrow> None
      | Some ok \<Rightarrow>
        if ok then (case place_entry st s t c day slot of None \<Rightarrow> None
                    | Some st' \<Rightarrow> Some (True, st'))
        else try_classrooms st s t day slot cs)"

fun try_teachers ::
  "run \<Rightarrow> subject \<Rightarrow> string \<Rightarrow> string \<Rightarrow> teacher list \<Rightarrow> (bool \<times> run) option" where
  "try_teachers st s day slot [] = Some (False, st)"
| "try_teachers st s day slot (t # ts) =
     (if \<not> is_teacher_available t day slot then try_teachers st s day slot ts
      else (case filter_opt (classroom_free st day slot) (classrooms st) of None \<Rightarrow> None
            | Some free \<Rightarrow>
              (case try_classrooms (st\<lparr>rng := snd (shuffle free (rng st))\<rparr>) s t day slot
                      (fst (shuffle free (rng st))) of
                 None \<Rightarrow> None
               | Some (assigned_here, st') \<Rightarrow>
                   if assigned_here then Some (True, st')
                   else try_teachers st' s day slot ts)))"

fun try_candidates ::
  "run \<Rightarrow> subject \<Rightarrow> (int \<times> string \<times> string) list \<Rightarrow> (bool \<times> run) option" where
  "try_candidates st s [] = Some (False, st)"
| "try_candidates st s ((score, day, slot) # cands) =
     (case try_teachers (st\<lparr>rng := snd (shuffle (filter (\<lambda>t. teaches t s) (teachers st)) (rng st))\<rparr>)
             s day slot (fst (shuffle (filter (\<lambda>t. teaches t s) (teachers st)) (rng st))) of
        None \<Rightarrow> None
      | Some (assigned_here, st') \<Rightarrow>
          if assigned_here then Some (True, st') else try_candidates st' s cands)"

definition candidates :: "run \<Rightarrow> subject \<Rightarrow> (int \<times> string \<times> string) list" where
  "candidates st s =
     sort_key fst
       (map (\<lambda>(day, slot). (rank_slots (cohort_load st) day slot (semester_of s), day, slot))
          (day_slots st))"

definition attempt :: "run \<Rightarrow> subject \<Rightarrow> (bool \<times> run) option" where
  "attempt st s = try_candidates st s (candidates st s)"

text \<open>
  The \<^verbatim>\<open>while\<close> loop of one subject; it returns \<^verbatim>\<open>placed\<close>, \<^verbatim>\<open>attempts_guard\<close> and
  the run.
\<close>

function place_sessions :: "run \<Rightarrow> subject \<Rightarrow> int \<Rightarrow> int \<Rightarrow> (int \<times> int \<times> run) option" where
  "place_sessions st s placed attempts_guard =
     (if placed < sessions_of s \<and> attempts_guard < sessions_of s * 300 then
        (case attempt st s of None \<Rightarrow> None
         | Some (assigned_here, st') \<Rightarrow>
             if assigned_here then place_sessions st' s (placed + 1) (attempts_guard + 1)
             else Some (placed, attempts_guard + 1, st'))
      else Some (placed, attempts_guard, st))"
  by pat_completeness auto
termination
  by (relation "measure (\<lambda>(st, s, placed, g). nat (sessions_of s * 300 - g))") auto

declare place_sessions.simps [simp del]

text \<open>The body of \<^verbatim>\<open>for subject in self.subjects\<close>, and the loop.\<close>

definition schedule_subject :: "run \<Rightarrow> subject \<Rightarrow> run option" where
  "schedule_subject st s =
     (case place_sessions st s 0 0 of None \<Rightarrow> None
      | Some (placed, attempts_guard, st') \<Rightarrow>
          if placed < sessions_of s then
            (case suggest_alternatives st' s 5 of None \<Rightarrow> None
             | Some suggestions \<Rightarrow>
                 Some (st'\<lparr>conflicts := conflicts st' @
                   [Unplaced (semester_of s) [s_name s] (sessions_of s - placed) suggestions]\<rparr>))
          else Some st')"

fun schedule_all :: "run \<Rightarrow> subject list \<Rightarrow> run option" where
  "schedule_all st [] = Some st"
| "schedule_all st (s # ss) =
     (case schedule_subject st s of None \<Rightarrow> None | Some st' \<Rightarrow> schedule_all st' ss)"

section \<open>The conflict detector\<close>

text \<open>
  \<^verbatim>\<open>d.setdefault(k, []).append(v)\<close> on a dictionary, which keeps its keys in the order
  of their first insertion: an association list.
\<close>

fun setdefault_append :: "'k \<Rightarrow> 'v \<Rightarrow> ('k \<times> 'v list) list \<Rightarrow> ('k \<times> 'v list) list" where
  "setdefault_append k v [] = [(k, [v])]"
| "setdefault_append k v ((k', vs) # d) =
     (if k = k' then (k', vs @ [v]) # d else (k', vs) # setdefault_append k v d)"

definition index_by :: "('v \<Rightarrow> 'k) \<Rightarrow> 'v list \<Rightarrow> ('k \<times> 'v list) list" where
  "index_by key es = foldl (\<lambda>d e. setdefault_append (key e) e d) [] es"

definition entry_cohort :: "entry \<Rightarrow> string" where
  "entry_cohort e = (case e_semester e of None \<Rightarrow> ''General'' | Some x \<Rightarrow> x)"

definition clashes_of ::
  "clash_type \<Rightarrow> (entry \<Rightarrow> string) \<Rightarrow> string \<Rightarrow> string \<Rightarrow> entry list \<Rightarrow> conflict list" where
  "clashes_of ty key day slot entries =
     concat (map (\<lambda>(k, arr). if length arr > 1 then [Clash ty k day slot (map e_subject arr)] else [])
       (index_by key entries))"

definition slot_clashes :: "string \<Rightarrow> string \<Rightarrow> entry list \<Rightarrow> conflict list" where
  "slot_clashes day slot entries =
     clashes_of Teacher e_teacher day slot entries @
     clashes_of Classroom e_classroom day slot entries @
     clashes_of Student entry_cohort day slot entries"

definition clash_records :: "entry list \<Rightarrow> conflict list" where
  "clash_records tt =
     concat (map (\<lambda>((day, slot), entries). slot_clashes day slot entries)
       (index_by (\<lambda>e. (e_day e, e_time_slot e)) tt))"

definition detect_conflicts :: "'a generator_scheme \<Rightarrow> 'a generator_scheme" where
  "detect_conflicts g = g\<lparr>conflicts := conflicts g @ clash_records (timetable g)\<rparr>"

text \<open>
  The route \<^verbatim>\<open>/update-timetable\<close> validates a supplied timetable with a generator made
  for that: \<^verbatim>\<open>TimetableGenerator([], [], [], [], [], [])\<close>.
\<close>

definition revalidate :: "entry list \<Rightarrow> conflict list" where
  "revalidate tt =
     conflicts (detect_conflicts ((TimetableGenerator [] [] [] [] [] [])\<lparr>timetable := tt\<rparr>))"

section \<open>\<^verbatim>\<open>generate\<close>\<close>

definition empty_days :: "'a generator_scheme \<Rightarrow> (string \<rightharpoonup> (string \<rightharpoonup> bool))" where
  "empty_days g = dict_comp id (\<lambda>day. dict_comp id (\<lambda>slot. False) (time_slots g)) (days g)"

text \<open>\<^verbatim>\<open>set([s.get('semester','General') for s in self.subjects]) or {'General'}\<close>.\<close>

definition cohorts :: "'a generator_scheme \<Rightarrow> string list" where
  "cohorts g =
     (if map semester_of (subjects g) = [] then [''General'']
      else remdups (map semester_of (subjects g)))"

definition init_run :: "generator \<Rightarrow> rng \<Rightarrow> run" where
  "init_run self r =
     \<lparr>teachers = teachers self, subjects = subjects self, classrooms = classrooms self,
      time_slots = time_slots self, days = days self, semesters = semesters self,
      timetable = [], conflicts = [],
      teacher_schedule = dict_comp t_name (\<lambda>t. empty_days self) (teachers self),
      classroom_schedule = dict_comp id (\<lambda>c. empty_days self) (classrooms self),
      cohort_schedule = dict_comp id (\<lambda>c. empty_days self) (cohorts self),
      cohort_load = Map.empty, rng = r\<rparr>"

definition generate_run :: "generator \<Rightarrow> rng \<Rightarrow> run option" where
  "generate_run self r =
     (case schedule_all (init_run self r) (subjects self) of None \<Rightarrow> None
      | Some st \<Rightarrow> Some (detect_conflicts st))"

text \<open>The returned dictionary \<^verbatim>\<open>{'timetable': ..., 'conflicts': ...}\<close>.\<close>

definition generate :: "generator \<Rightarrow> rng \<Rightarrow> (entry list \<times> conflict list) option" where
  "generate self r =
     (case generate_run self r of None \<Rightarrow> None
      | Some st \<Rightarrow> Some (timetable st, conflicts st))"

section \<open>Notions the properties are stated with\<close>

text \<open>The keys of a list in the order of their first occurrence: the key order of a dictionary.\<close>

definition first_seen :: "'a list \<Rightarrow> 'a list" where
  "first_seen xs = rev (remdups (rev xs))"

text \<open>
  The sub-group of a timetable for one teacher (classroom, cohort) at one day and slot, and the
  clash records that are about it. \<open>unordered\<close> reads the subject list of a record as a
  multiset.
\<close>

definition clash_key :: "clash_type \<Rightarrow> entry \<Rightarrow> string" where
  "clash_key ty = (case ty of Teacher \<Rightarrow> e_teacher | Classroom \<Rightarrow> e_classroom | Student \<Rightarrow> entry_cohort)"

definition sub_group :: "clash_type \<Rightarrow> string \<Rightarrow> string \<Rightarrow> string \<Rightarrow> entry list \<Rightarrow> entry list" where
  "sub_group ty who day slot tt =
     filter (\<lambda>e. e_day e = day \<and> e_time_slot e = slot \<and> clash_key ty e = who) tt"

fun clash_about :: "clash_type \<Rightarrow> string \<Rightarrow> string \<Rightarrow> string \<Rightarrow> conflict \<Rightarrow> bool" where
  "clash_about ty who day slot (Clash ty' who' day' slot' subs) =
     (ty' = ty \<and> who' = who \<and> day' = day \<and> slot' = slot)"
| "clash_about ty who day slot (Unplaced sem subs missing sug) = False"

fun is_clash :: "conflict \<Rightarrow> bool" where
  "is_clash (Clash ty who day slot subs) = True"
| "is_clash (Unplaced sem subs missing sug) = False"

fun unordered :: "conflict \<Rightarrow> conflict \<times> string multiset" where
  "unordered (Clash ty who day slot subs) = (Clash ty who day slot [], mset subs)"
| "unordered (Unplaced sem subs missing sug) = (Unplaced sem [] missing sug, mset subs)"

text \<open>
  Invariants of a run. Its grids have a cell for every teacher, classroom and cohort of the
  request at every day and slot (\<open>wf_run\<close>); every entry of the timetable has its three
  cells marked (\<open>booked\<close>); no two entries share a teacher, a classroom or a cohort at the
  same day and slot (\<open>no_double_booking\<close>).
\<close>

definition grid_covers :: "grid \<Rightarrow> string list \<Rightarrow> string list \<Rightarrow> string list \<Rightarrow> bool" where
  "grid_covers g whos ds sl =
     (\<forall>w\<in>set whos. \<forall>d\<in>set ds. \<forall>s\<in>set sl. grid_get g w d s \<noteq> None)"

definition wf_run :: "run \<Rightarrow> bool" where
  "wf_run st =
     (grid_covers (teacher_schedule st) (map t_name (teachers st)) (days st) (time_slots st) \<and>
      grid_covers (classroom_schedule st) (classrooms st) (days st) (time_slots st) \<and>
      grid_covers (cohort_schedule st) (map semester_of (subjects st)) (days st) (time_slots st))"

definition booked :: "run \<Rightarrow> bool" where
  "booked st =
     (\<forall>e\<in>set (timetable st).
        grid_get (teacher_schedule st) (e_teacher e) (e_day e) (e_time_slot e) = Some True \<and>
        grid_get (classroom_schedule st) (e_classroom e) (e_day e) (e_time_slot e) = Some True \<and>
        grid_get (cohort_schedule st) (entry_cohort e) (e_day e) (e_time_slot e) = Some True)"

definition no_double_booking :: "entry list \<Rightarrow> bool" where
  "no_double_booking tt =
     (distinct (map (\<lambda>e. (e_teacher e, e_day e, e_time_slot e)) tt) \<and>
      distinct (map (\<lambda>e. (e_classroom e, e_day e, e_time_slot e)) tt) \<and>
      distinct (map (\<lambda>e. (entry_cohort e, e_day e, e_time_slot e)) tt))"

definition good :: "run \<Rightarrow> bool" where
  "good st = (wf_run st \<and> booked st \<and> no_double_booking (timetable st))"

text \<open>
  A step from \<open>st\<close> to \<open>st'\<close> that places \<open>n\<close> entries of the subject \<open>s\<close>: the request
  and the conflicts stay, the timetable grows at its end, the invariants hold after it.
\<close>

definition same_request :: "run \<Rightarrow> run \<Rightarrow> bool" where
  "same_request st st' =
     (teachers st' = teachers st \<and> subjects st' = subjects st \<and>
      classrooms st' = classrooms st \<and> time_slots st' = time_slots st \<and>
      days st' = days st \<and> semesters st' = semesters st)"

definition adds :: "subject \<Rightarrow> nat \<Rightarrow> run \<Rightarrow> run \<Rightarrow> bool" where
  "adds s n st st' =
     (same_request st st' \<and> conflicts st' = conflicts st \<and>
      (\<exists>es. timetable st' = timetable st @ es \<and> length es = n \<and>
            (\<forall>e\<in>set es. e_subject e = s_name s \<and> e_semester e = Some (semester_of s))) \<and>
      good st')"

text \<open>
  In the words of the specification: a day and slot qualify for a subject when some teacher
  teaches it, is free there and available, some classroom is free there, and the cohort of
  the subject is free there. A suggestion is written \<open>day @ slot\<close>.
\<close>

definition qualifies :: "run \<Rightarrow> subject \<Rightarrow> string \<times> string \<Rightarrow> bool" where
  "qualifies st s p =
     ((\<exists>t\<in>set (teachers st). teaches t s \<and>
          grid_get (teacher_schedule st) (t_name t) (fst p) (snd p) = Some False \<and>
          is_teacher_available t (fst p) (snd p)) \<and>
      (\<exists>c\<in>set (classrooms st). grid_get (classroom_schedule st) c (fst p) (snd p) = Some False) \<and>
      grid_get (cohort_schedule st) (semester_of s) (fst p) (snd p) = Some False)"

definition suggestion :: "string \<times> string \<Rightarrow> string" where
  "suggestion p = fst p @ '' @ '' @ snd p"

text \<open>
  What one subject leaves behind: the entries placed for it, not more than it requires, and
  its conflicts, which are one unplaced-sessions record (the sessions missing, at most five
  suggestions) when fewer were placed than required and none otherwise.
\<close>

definition subject_outcome :: "subject \<Rightarrow> entry list \<Rightarrow> conflict list \<Rightarrow> bool" where
  "subject_outcome s es cs =
     ((\<forall>e\<in>set es. e_subject e = s_name s \<and> e_semester e = Some (semester_of s)) \<and>
      (0 \<le> sessions_of s \<longrightarrow> int (length es) \<le> sessions_of s) \<and>
      (if int (length es) < sessions_of s
       then \<exists>sug. cs = [Unplaced (semester_of s) [s_name s] (sessions_of s - int (length es)) sug] \<and>
                  length sug \<le> 5
       else cs = []))"

section \<open>The conflict detector: what it reports\<close>

lemma first_seen_snoc:
  "first_seen (xs @ [x]) = (if x \<in> set xs then first_seen xs else first_seen xs @ [x])"
  by (simp add: first_seen_def)

lemma set_first_seen [simp]: "set (first_seen xs) = set xs"
  by (simp add: first_seen_def)

lemma distinct_first_seen [simp]: "distinct (first_seen xs)"
  by (simp add: first_seen_def)

lemma setdefault_append_map:
  "distinct ks \<Longrightarrow>
   setdefault_append k v (map (\<lambda>x. (x, f x)) ks) =
     (if k \<in> set ks then map (\<lambda>x. (x, if x = k then f x @ [v] else f x)) ks
      else map (\<lambda>x. (x, f x)) ks @ [(k, [v])])"
  by (induction ks) auto

lemma index_by_snoc:
  "index_by key (es @ [e]) = setdefault_append (key e) e (index_by key es)"
  by (simp add: index_by_def)

lemma filter_key_absent:
  "key e \<notin> key ` set es \<Longrightarrow> filter (\<lambda>x. key x = key e) es = []"
  by (induction es) auto

lemma index_by_eq:
  "index_by key es = map (\<lambda>k. (k, filter (\<lambda>e. key e = k) es)) (first_seen (map key es))"
proof (induction es rule: rev_induct)
  case Nil
  show ?case by (simp add: index_by_def first_seen_def)
next
  case (snoc e es)
  let ?ks = "first_seen (map key es)"
  note none = filter_key_absent [of key e es]
  show ?case
  proof (cases "key e \<in> key ` set es")
    case True
    then show ?thesis
      by (simp add: index_by_snoc snoc.IH setdefault_append_map first_seen_snoc)
  next
    case False
    then show ?thesis
      using none
      by (auto simp add: index_by_snoc snoc.IH setdefault_append_map first_seen_snoc)
  qed
qed

lemma concat_map_single:
  "distinct ks \<Longrightarrow> (\<And>k. k \<in> set ks \<Longrightarrow> k \<noteq> k0 \<Longrightarrow> g k = []) \<Longrightarrow>
   concat (map g ks) = (if k0 \<in> set ks then g k0 else [])"
proof (induction ks)
  case Nil
  then show ?case by simp
next
  case (Cons k ks)
  show ?case
  proof (cases "k = k0")
    case True
    with Cons.prems have "\<And>x. x \<in> set ks \<Longrightarrow> g x = []" by auto
    then have "concat (map g ks) = []" by simp
    with True show ?thesis by simp
  next
    case False
    with Cons show ?thesis by simp
  qed
qed


lemma clashes_of_eq:
  "clashes_of ty key day slot es =
     concat (map (\<lambda>k. if 1 < length (filter (\<lambda>e. key e = k) es)
                       then [Clash ty k day slot (map e_subject (filter (\<lambda>e. key e = k) es))]
                       else [])
       (first_seen (map key es)))"
  by (simp add: clashes_of_def index_by_eq comp_def)

lemma clash_records_eq:
  "clash_records tt =
     concat (map (\<lambda>k. slot_clashes (fst k) (snd k)
                        (filter (\<lambda>e. (e_day e, e_time_slot e) = k) tt))
       (first_seen (map (\<lambda>e. (e_day e, e_time_slot e)) tt)))"
  by (simp add: clash_records_def index_by_eq comp_def split_def)

lemma filter_clashes_of:
  "filter (clash_about ty' who day' slot') (clashes_of ty key day slot es) =
     (if ty' = ty \<and> day' = day \<and> slot' = slot \<and> 1 < length (filter (\<lambda>e. key e = who) es)
      then [Clash ty who day slot (map e_subject (filter (\<lambda>e. key e = who) es))]
      else [])"
proof -
  let ?g = "\<lambda>k. filter (clash_about ty' who day' slot')
                 (if 1 < length (filter (\<lambda>e. key e = k) es)
                  then [Clash ty k day slot (map e_subject (filter (\<lambda>e. key e = k) es))]
                  else [])"
  have eq: "filter (clash_about ty' who day' slot') (clashes_of ty key day slot es) =
        concat (map ?g (first_seen (map key es)))"
    by (simp add: clashes_of_eq filter_concat comp_def)
  have single: "concat (map ?g (first_seen (map key es))) =
        (if who \<in> set (first_seen (map key es)) then ?g who else [])"
    by (rule concat_map_single) auto
  have absent: "who \<notin> key ` set es \<Longrightarrow> filter (\<lambda>e. key e = who) es = []"
    by (induction es) auto
  show ?thesis
    unfolding eq single using absent by auto
qed

lemma filter_slot_clashes:
  "filter (clash_about ty who day' slot') (slot_clashes day slot es) =
     (if day' = day \<and> slot' = slot \<and> 1 < length (filter (\<lambda>e. clash_key ty e = who) es)
      then [Clash ty who day slot (map e_subject (filter (\<lambda>e. clash_key ty e = who) es))]
      else [])"
  by (cases ty) (simp_all add: slot_clashes_def filter_clashes_of clash_key_def)

lemma filter_clash_records:
  "filter (clash_about ty who day slot) (clash_records tt) =
     (if 1 < length (sub_group ty who day slot tt)
      then [Clash ty who day slot (map e_subject (sub_group ty who day slot tt))]
      else [])"
proof -
  let ?dk = "\<lambda>e. (e_day e, e_time_slot e)"
  let ?g = "\<lambda>k. filter (clash_about ty who day slot)
                 (slot_clashes (fst k) (snd k) (filter (\<lambda>e. ?dk e = k) tt))"
  have eq: "filter (clash_about ty who day slot) (clash_records tt) =
        concat (map ?g (first_seen (map ?dk tt)))"
    by (simp add: clash_records_eq filter_concat comp_def)
  have single: "concat (map ?g (first_seen (map ?dk tt))) =
        (if (day, slot) \<in> set (first_seen (map ?dk tt)) then ?g (day, slot) else [])"
    by (rule concat_map_single) (auto simp: filter_slot_clashes)
  have grp: "filter (\<lambda>e. clash_key ty e = who) (filter (\<lambda>e. ?dk e = (day, slot)) tt) =
        sub_group ty who day slot tt"
    by (simp add: sub_group_def conj_commute conj_left_commute cong: conj_cong)
  have absent: "(day, slot) \<notin> ?dk ` set tt \<Longrightarrow> sub_group ty who day slot tt = []"
    by (induction tt) (auto simp: sub_group_def)
  show ?thesis
    unfolding eq single using absent by (auto simp: filter_slot_clashes sub_group_def)
qed

lemma clashes_of_is_clash: "c \<in> set (clashes_of ty key day slot es) \<Longrightarrow> is_clash c"
  by (auto simp: clashes_of_def split: if_splits)

lemma clash_records_is_clash: "c \<in> set (clash_records tt) \<Longrightarrow> is_clash c"
  by (auto simp: clash_records_def slot_clashes_def dest: clashes_of_is_clash)


lemma mset_concat_distinct:
  "distinct ks \<Longrightarrow>
   image_mset u (mset (concat (map g ks))) = (\<Sum>k\<in>set ks. image_mset u (mset (g k)))"
  by (induction ks) auto

lemma clashes_of_mset:
  assumes "mset es1 = mset es2"
  shows "image_mset unordered (mset (clashes_of ty key day slot es1)) =
         image_mset unordered (mset (clashes_of ty key day slot es2))"
proof -
  let ?G = "\<lambda>es k. if 1 < length (filter (\<lambda>e. key e = k) es)
                    then [Clash ty k day slot (map e_subject (filter (\<lambda>e. key e = k) es))]
                    else []"
  have f: "mset (filter (\<lambda>e. key e = k) es1) = mset (filter (\<lambda>e. key e = k) es2)" for k
    using assms by simp
  have len: "length (filter (\<lambda>e. key e = k) es1) = length (filter (\<lambda>e. key e = k) es2)" for k
    using f [of k] by (metis size_mset)
  have one: "image_mset unordered (mset (?G es1 k)) = image_mset unordered (mset (?G es2 k))" for k
    using assms by (simp add: len)
  have keys: "set (first_seen (map key es1)) = set (first_seen (map key es2))"
    using mset_eq_setD [OF assms] by simp
  show ?thesis
    unfolding clashes_of_eq
    by (simp only: mset_concat_distinct [OF distinct_first_seen] keys one)
qed

lemma slot_clashes_mset:
  assumes "mset es1 = mset es2"
  shows "image_mset unordered (mset (slot_clashes day slot es1)) =
         image_mset unordered (mset (slot_clashes day slot es2))"
  by (simp add: slot_clashes_def clashes_of_mset [OF assms])

lemma clash_records_mset:
  assumes "mset tt1 = mset tt2"
  shows "image_mset unordered (mset (clash_records tt1)) =
         image_mset unordered (mset (clash_records tt2))"
proof -
  let ?dk = "\<lambda>e. (e_day e, e_time_slot e)"
  have f: "mset (filter (\<lambda>e. ?dk e = k) tt1) = mset (filter (\<lambda>e. ?dk e = k) tt2)" for k
    using assms by simp
  have one: "image_mset unordered
               (mset (slot_clashes (fst k) (snd k) (filter (\<lambda>e. ?dk e = k) tt1))) =
             image_mset unordered
               (mset (slot_clashes (fst k) (snd k) (filter (\<lambda>e. ?dk e = k) tt2)))" for k
    by (rule slot_clashes_mset [OF f])
  have keys: "set (first_seen (map ?dk tt1)) = set (first_seen (map ?dk tt2))"
    using mset_eq_setD [OF assms] by simp
  show ?thesis
    unfolding clash_records_eq
    by (simp only: mset_concat_distinct [OF distinct_first_seen] keys one)
qed

text \<open>
  C2. The detector groups the entries by (day, slot) and, inside a group, by teacher, by
  classroom and by cohort. What it appends to the conflicts is \<open>clash_records\<close> of the
  timetable: only clash records, and for each type, each teacher (classroom, cohort), each
  day and slot, one record if the entries of that sub-group are more than one, listing
  their subjects in timetable order, and none otherwise.
\<close>

theorem detect_conflicts_sub_groups:
  "conflicts (detect_conflicts g) = conflicts g @ clash_records (timetable g) \<and>
   list_all is_clash (clash_records tt) \<and>
   filter (clash_about ty who day slot) (clash_records tt) =
     (if 1 < length (sub_group ty who day slot tt)
      then [Clash ty who day slot (map e_subject (sub_group ty who day slot tt))]
      else [])"
  by (simp add: detect_conflicts_def list_all_iff clash_records_is_clash filter_clash_records)

theorem detect_conflicts_sub_groups_witness:
  "filter (clash_about Teacher ''ann'' ''Mon'' ''9'')
     (clash_records
        [\<lparr>e_day = ''Mon'', e_time_slot = ''9'', e_subject = ''math'', e_teacher = ''ann'',
          e_classroom = ''r1'', e_semester = Some ''A'', e_subject_color = ''''\<rparr>,
         \<lparr>e_day = ''Mon'', e_time_slot = ''9'', e_subject = ''art'', e_teacher = ''ann'',
          e_classroom = ''r2'', e_semester = Some ''B'', e_subject_color = ''''\<rparr>]) =
     [Clash Teacher ''ann'' ''Mon'' ''9'' [''math'', ''art'']] \<and>
   filter (clash_about Classroom ''r1'' ''Mon'' ''9'')
     (clash_records
        [\<lparr>e_day = ''Mon'', e_time_slot = ''9'', e_subject = ''math'', e_teacher = ''ann'',
          e_classroom = ''r1'', e_semester = Some ''A'', e_subject_color = ''''\<rparr>,
         \<lparr>e_day = ''Mon'', e_time_slot = ''9'', e_subject = ''art'', e_teacher = ''ann'',
          e_classroom = ''r2'', e_semester = Some ''B'', e_subject_color = ''''\<rparr>]) = []"
proof -
  let ?tt = "[\<lparr>e_day = ''Mon'', e_time_slot = ''9'', e_subject = ''math'', e_teacher = ''ann'',
          e_classroom = ''r1'', e_semester = Some ''A'', e_subject_color = ''''\<rparr>,
         \<lparr>e_day = ''Mon'', e_time_slot = ''9'', e_subject = ''art'', e_teacher = ''ann'',
          e_classroom = ''r2'', e_semester = Some ''B'', e_subject_color = ''''\<rparr>]"
  have t: "filter (clash_about Teacher ''ann'' ''Mon'' ''9'') (clash_records ?tt) =
     (if 1 < length (sub_group Teacher ''ann'' ''Mon'' ''9'' ?tt)
      then [Clash Teacher ''ann'' ''Mon'' ''9'' (map e_subject (sub_group Teacher ''ann'' ''Mon'' ''9'' ?tt))]
      else [])"
    using detect_conflicts_sub_groups [of "TimetableGenerator [] [] [] [] [] []" ?tt Teacher "''ann''" "''Mon''" "''9''"]
    by blast
  have c: "filter (clash_about Classroom ''r1'' ''Mon'' ''9'') (clash_records ?tt) =
     (if 1 < length (sub_group Classroom ''r1'' ''Mon'' ''9'' ?tt)
      then [Clash Classroom ''r1'' ''Mon'' ''9'' (map e_subject (sub_group Classroom ''r1'' ''Mon'' ''9'' ?tt))]
      else [])"
    using detect_conflicts_sub_groups [of "TimetableGenerator [] [] [] [] [] []" ?tt Classroom "''r1''" "''Mon''" "''9''"]
    by blast
  show ?thesis
    unfolding t c by (simp add: sub_group_def clash_key_def)
qed

lemma scenario_two_entries:
  "clash_records
        [\<lparr>e_day = ''Mon'', e_time_slot = ''9'', e_subject = ''math'', e_teacher = ''ann'',
          e_classroom = ''r1'', e_semester = Some ''A'', e_subject_color = ''''\<rparr>,
         \<lparr>e_day = ''Mon'', e_time_slot = ''9'', e_subject = ''art'', e_teacher = ''ann'',
          e_classroom = ''r2'', e_semester = Some ''B'', e_subject_color = ''''\<rparr>] =
     [Clash Teacher ''ann'' ''Mon'' ''9'' [''math'', ''art'']]"
  by (simp add: clash_records_def slot_clashes_def clashes_of_def index_by_def entry_cohort_def)

text \<open>
  C5. A run of the detector leaves the timetable as it is and appends its report to the
  conflicts; a second run on the same generator appends the same report again, so the
  conflicts hold the same records after both runs as after one; and the validation of a
  supplied timetable depends on the timetable only.
\<close>

theorem detect_conflicts_twice:
  "timetable (detect_conflicts g) = timetable g \<and>
   drop (length (conflicts (detect_conflicts g))) (conflicts (detect_conflicts (detect_conflicts g))) =
     drop (length (conflicts g)) (conflicts (detect_conflicts g)) \<and>
   set (conflicts (detect_conflicts (detect_conflicts g))) = set (conflicts (detect_conflicts g)) \<and>
   revalidate (timetable (detect_conflicts g)) = revalidate (timetable g)"
  by (simp add: detect_conflicts_def)

theorem detect_conflicts_twice_witness:
  "conflicts (detect_conflicts (detect_conflicts
      ((TimetableGenerator [] [] [] [] [] [])\<lparr>timetable :=
        [\<lparr>e_day = ''Mon'', e_time_slot = ''9'', e_subject = ''math'', e_teacher = ''ann'',
          e_classroom = ''r1'', e_semester = Some ''A'', e_subject_color = ''''\<rparr>,
         \<lparr>e_day = ''Mon'', e_time_slot = ''9'', e_subject = ''art'', e_teacher = ''ann'',
          e_classroom = ''r2'', e_semester = Some ''B'', e_subject_color = ''''\<rparr>]\<rparr>))) =
     [Clash Teacher ''ann'' ''Mon'' ''9'' [''math'', ''art''],
      Clash Teacher ''ann'' ''Mon'' ''9'' [''math'', ''art'']] \<and>
   set (conflicts (detect_conflicts (detect_conflicts
      ((TimetableGenerator [] [] [] [] [] [])\<lparr>timetable :=
        [\<lparr>e_day = ''Mon'', e_time_slot = ''9'', e_subject = ''math'', e_teacher = ''ann'',
          e_classroom = ''r1'', e_semester = Some ''A'', e_subject_color = ''''\<rparr>,
         \<lparr>e_day = ''Mon'', e_time_slot = ''9'', e_subject = ''art'', e_teacher = ''ann'',
          e_classroom = ''r2'', e_semester = Some ''B'', e_subject_color = ''''\<rparr>]\<rparr>)))) =
     {Clash Teacher ''ann'' ''Mon'' ''9'' [''math'', ''art'']}"
  using detect_conflicts_twice [of "(TimetableGenerator [] [] [] [] [] [])\<lparr>timetable :=
        [\<lparr>e_day = ''Mon'', e_time_slot = ''9'', e_subject = ''math'', e_teacher = ''ann'',
          e_classroom = ''r1'', e_semester = Some ''A'', e_subject_color = ''''\<rparr>,
         \<lparr>e_day = ''Mon'', e_time_slot = ''9'', e_subject = ''art'', e_teacher = ''ann'',
          e_classroom = ''r2'', e_semester = Some ''B'', e_subject_color = ''''\<rparr>]\<rparr>"]
  by (simp add: detect_conflicts_def TimetableGenerator_def scenario_two_entries)

text \<open>
  C6, as stated, fails: a record lists the subjects of its sub-group in timetable order, so
  two permutations of the same entries can give records that differ in that list.
\<close>

theorem detector_symmetry_counterexample:
  "mset [\<lparr>e_day = ''Mon'', e_time_slot = ''9'', e_subject = ''math'', e_teacher = ''ann'',
          e_classroom = ''r1'', e_semester = Some ''A'', e_subject_color = ''''\<rparr>,
         \<lparr>e_day = ''Mon'', e_time_slot = ''9'', e_subject = ''art'', e_teacher = ''ann'',
          e_classroom = ''r2'', e_semester = Some ''B'', e_subject_color = ''''\<rparr>] =
   mset [\<lparr>e_day = ''Mon'', e_time_slot = ''9'', e_subject = ''art'', e_teacher = ''ann'',
          e_classroom = ''r2'', e_semester = Some ''B'', e_subject_color = ''''\<rparr>,
         \<lparr>e_day = ''Mon'', e_time_slot = ''9'', e_subject = ''math'', e_teacher = ''ann'',
          e_classroom = ''r1'', e_semester = Some ''A'', e_subject_color = ''''\<rparr>] \<and>
   mset (clash_records
        [\<lparr>e_day = ''Mon'', e_time_slot = ''9'', e_subject = ''math'', e_teacher = ''ann'',
          e_classroom = ''r1'', e_semester = Some ''A'', e_subject_color = ''''\<rparr>,
         \<lparr>e_day = ''Mon'', e_time_slot = ''9'', e_subject = ''art'', e_teacher = ''ann'',
          e_classroom = ''r2'', e_semester = Some ''B'', e_subject_color = ''''\<rparr>]) \<noteq>
   mset (clash_records
        [\<lparr>e_day = ''Mon'', e_time_slot = ''9'', e_subject = ''art'', e_teacher = ''ann'',
          e_classroom = ''r2'', e_semester = Some ''B'', e_subject_color = ''''\<rparr>,
         \<lparr>e_day = ''Mon'', e_time_slot = ''9'', e_subject = ''math'', e_teacher = ''ann'',
          e_classroom = ''r1'', e_semester = Some ''A'', e_subject_color = ''''\<rparr>])"
  by (simp add: clash_records_def slot_clashes_def clashes_of_def index_by_def entry_cohort_def)

text \<open>
  C6, amended. For two timetables with the same entries in any order, the detector gives
  the same multiset of records once the subject list of each record is read as a multiset.
\<close>

theorem detector_symmetry:
  "mset tt1 = mset tt2 \<Longrightarrow>
   image_mset unordered (mset (clash_records tt1)) = image_mset unordered (mset (clash_records tt2))"
  by (rule clash_records_mset)

theorem detector_symmetry_witness:
  "image_mset unordered (mset (clash_records
        [\<lparr>e_day = ''Mon'', e_time_slot = ''9'', e_subject = ''math'', e_teacher = ''ann'',
          e_classroom = ''r1'', e_semester = Some ''A'', e_subject_color = ''''\<rparr>,
         \<lparr>e_day = ''Mon'', e_time_slot = ''9'', e_subject = ''art'', e_teacher = ''ann'',
          e_classroom = ''r2'', e_semester = Some ''B'', e_subject_color = ''''\<rparr>])) =
   image_mset unordered (mset (clash_records
        [\<lparr>e_day = ''Mon'', e_time_slot = ''9'', e_subject = ''art'', e_teacher = ''ann'',
          e_classroom = ''r2'', e_semester = Some ''B'', e_subject_color = ''''\<rparr>,
         \<lparr>e_day = ''Mon'', e_time_slot = ''9'', e_subject = ''math'', e_teacher = ''ann'',
          e_classroom = ''r1'', e_semester = Some ''A'', e_subject_color = ''''\<rparr>]))"
  by (rule detector_symmetry) (simp add: add_mset_commute)

section \<open>The generator: what every step preserves\<close>

lemma grid_get_set:
  "grid_set g w d s v = Some g' \<Longrightarrow>
   grid_get g' w' d' s' = (if w' = w \<and> d' = d \<and> s' = s then Some v else grid_get g w' d' s')"
  by (auto simp: grid_set_def grid_get_def split: option.splits if_splits)

lemma grid_set_ok: "grid_get g w d s \<noteq> None \<Longrightarrow> \<exists>g'. grid_set g w d s v = Some g'"
  by (auto simp: grid_set_def grid_get_def split: option.splits)

lemma dict_comp_const:
  "dict_comp k (\<lambda>x. c) xs key = (if key \<in> k ` set xs then Some c else None)"
  by (induction xs) (auto simp: dict_comp_def map_add_def split: option.splits)

lemma grid_get_init:
  "grid_get (dict_comp k (\<lambda>x. empty_days g) xs) w d s =
     (if w \<in> k ` set xs \<and> d \<in> set (days g) \<and> s \<in> set (time_slots g) then Some False else None)"
  by (simp add: grid_get_def empty_days_def dict_comp_const)

lemma mset_shuffle_from:
  "i < length xs \<Longrightarrow> mset (fst (shuffle_from i xs r)) = mset xs"
proof (induction i arbitrary: xs r)
  case 0
  then show ?case by simp
next
  case (Suc i)
  let ?j = "r 0 mod (Suc i + 1)"
  have j: "?j < length xs" using Suc.prems
    by (metis Suc_eq_plus1 less_Suc_eq_le less_le_trans mod_less_divisor not_less zero_less_Suc less_imp_le_nat)
  have "mset (xs[Suc i := xs ! ?j, ?j := xs ! Suc i]) = mset xs"
    using mset_swap [of ?j xs "Suc i"] j Suc.prems by simp
  moreover have "i < length (xs[Suc i := xs ! ?j, ?j := xs ! Suc i])"
    using Suc.prems by simp
  ultimately show ?case
    using Suc.IH [of "xs[Suc i := xs ! ?j, ?j := xs ! Suc i]" "\<lambda>n. r (Suc n)"]
    by (simp add: Let_def)
qed

lemma set_shuffle [simp]: "set (fst (shuffle xs r)) = set xs"
proof (cases xs)
  case Nil
  then show ?thesis by (simp add: shuffle_def)
next
  case (Cons x ys)
  then have "mset (fst (shuffle xs r)) = mset xs"
    by (simp add: shuffle_def mset_shuffle_from)
  then show ?thesis by (rule mset_eq_setD)
qed

lemma shuffle_Nil [simp]: "shuffle [] r = ([], r)"
  by (simp add: shuffle_def)

lemma filter_opt_total:
  "(\<And>x. x \<in> set xs \<Longrightarrow> p x \<noteq> None) \<Longrightarrow>
   filter_opt p xs = Some (filter (\<lambda>x. p x = Some True) xs)"
  by (induction xs) (auto split: option.splits)


lemma grid_covers_set:
  "grid_set g w d s v = Some g' \<Longrightarrow> grid_covers g ws ds sl \<Longrightarrow> grid_covers g' ws ds sl"
  by (auto simp: grid_covers_def grid_get_set)

lemma grid_coversD:
  "grid_covers g ws ds sl \<Longrightarrow> w \<in> set ws \<Longrightarrow> d \<in> set ds \<Longrightarrow> s \<in> set sl \<Longrightarrow>
   \<exists>b. grid_get g w d s = Some b"
  by (auto simp: grid_covers_def)

lemma can_place_True_iff:
  "can_place st s t classroom day slot = Some True \<longleftrightarrow>
     grid_get (teacher_schedule st) (t_name t) day slot = Some False \<and>
     grid_get (classroom_schedule st) classroom day slot = Some False \<and>
     grid_get (cohort_schedule st) (semester_of s) day slot = Some False \<and>
     is_teacher_available t day slot"
  by (auto simp: can_place_def split: option.splits)

lemma can_place_defined:
  assumes "wf_run st" "t \<in> set (teachers st)" "classroom \<in> set (classrooms st)"
    "s \<in> set (subjects st)" "day \<in> set (days st)" "slot \<in> set (time_slots st)"
  shows "\<exists>b. can_place st s t classroom day slot = Some b"
proof -
  obtain a where a: "grid_get (teacher_schedule st) (t_name t) day slot = Some a"
    using assms grid_coversD [of "teacher_schedule st" "map t_name (teachers st)" _ _ "t_name t" day slot]
    by (auto simp: wf_run_def)
  obtain b where b: "grid_get (classroom_schedule st) classroom day slot = Some b"
    using assms grid_coversD [of "classroom_schedule st" "classrooms st" _ _ classroom day slot]
    by (auto simp: wf_run_def)
  obtain c where c: "grid_get (cohort_schedule st) (semester_of s) day slot = Some c"
    using assms grid_coversD [of "cohort_schedule st" "map semester_of (subjects st)" _ _ "semester_of s" day slot]
    by (auto simp: wf_run_def)
  show ?thesis by (auto simp: can_place_def a b c)
qed

lemma entry_cohort_new_entry [simp]:
  "entry_cohort (new_entry s t classroom day slot) = semester_of s"
  by (simp add: entry_cohort_def new_entry_def)

lemma new_entry_sel [simp]:
  "e_day (new_entry s t classroom day slot) = day"
  "e_time_slot (new_entry s t classroom day slot) = slot"
  "e_subject (new_entry s t classroom day slot) = s_name s"
  "e_teacher (new_entry s t classroom day slot) = t_name t"
  "e_classroom (new_entry s t classroom day slot) = classroom"
  "e_semester (new_entry s t classroom day slot) = Some (semester_of s)"
  by (simp_all add: new_entry_def)

lemma place_entry_good:
  assumes g: "good st" and cp: "can_place st s t classroom day slot = Some True"
  shows "\<exists>st'. place_entry st s t classroom day slot = Some st' \<and> adds s 1 st st'"
proof -
  from cp have ta: "grid_get (teacher_schedule st) (t_name t) day slot = Some False"
    and ca: "grid_get (classroom_schedule st) classroom day slot = Some False"
    and ha: "grid_get (cohort_schedule st) (semester_of s) day slot = Some False"
    by (simp_all add: can_place_True_iff)
  obtain ts where ts: "grid_set (teacher_schedule st) (t_name t) day slot True = Some ts"
    using grid_set_ok [of "teacher_schedule st" "t_name t" day slot True] ta by auto
  obtain cs where cs: "grid_set (classroom_schedule st) classroom day slot True = Some cs"
    using grid_set_ok [of "classroom_schedule st" classroom day slot True] ca by auto
  obtain hs where hs: "grid_set (cohort_schedule st) (semester_of s) day slot True = Some hs"
    using grid_set_ok [of "cohort_schedule st" "semester_of s" day slot True] ha by auto
  let ?e = "new_entry s t classroom day slot"
  let ?st' = "st\<lparr>timetable := timetable st @ [?e],
                  teacher_schedule := ts, classroom_schedule := cs, cohort_schedule := hs,
                  cohort_load := load_incr (cohort_load st) (semester_of s) day\<rparr>"
  have pe: "place_entry st s t classroom day slot = Some ?st'"
    by (simp add: place_entry_def ts cs hs)
  from g have wf: "wf_run st" and bk: "booked st" and nd: "no_double_booking (timetable st)"
    by (simp_all add: good_def)
  have wf': "wf_run ?st'"
    using wf grid_covers_set [OF ts] grid_covers_set [OF cs] grid_covers_set [OF hs]
    by (simp add: wf_run_def)
  have bk': "booked ?st'"
    using bk by (auto simp: booked_def grid_get_set [OF ts] grid_get_set [OF cs] grid_get_set [OF hs])
  have fresh_t: "(t_name t, day, slot) \<notin> (\<lambda>e. (e_teacher e, e_day e, e_time_slot e)) ` set (timetable st)"
    using bk ta by (auto simp: booked_def)
  have fresh_c: "(classroom, day, slot) \<notin> (\<lambda>e. (e_classroom e, e_day e, e_time_slot e)) ` set (timetable st)"
    using bk ca by (auto simp: booked_def)
  have fresh_h: "(semester_of s, day, slot) \<notin> (\<lambda>e. (entry_cohort e, e_day e, e_time_slot e)) ` set (timetable st)"
    using bk ha by (auto simp: booked_def)
  have nd': "no_double_booking (timetable ?st')"
    using nd fresh_t fresh_c fresh_h by (simp add: no_double_booking_def)
  have "adds s 1 st ?st'"
    using wf' bk' nd' by (simp add: adds_def same_request_def good_def)
  with pe show ?thesis by blast
qed


lemma good_rng [simp]: "good (st\<lparr>rng := r\<rparr>) = good st"
  by (simp add: good_def wf_run_def booked_def)

lemma adds_refl: "good st \<Longrightarrow> adds s 0 st st"
  by (simp add: adds_def same_request_def)

lemma adds_rng: "adds s n (st\<lparr>rng := r\<rparr>) st' \<Longrightarrow> adds s n st st'"
  by (simp add: adds_def same_request_def)

lemma adds_trans:
  assumes "adds s m st st'" "adds s n st' st''"
  shows "adds s (m + n) st st''"
proof -
  from assms(1) obtain es where es: "timetable st' = timetable st @ es" "length es = m"
    "\<forall>e\<in>set es. e_subject e = s_name s \<and> e_semester e = Some (semester_of s)"
    by (auto simp: adds_def)
  from assms(2) obtain fs where fs: "timetable st'' = timetable st' @ fs" "length fs = n"
    "\<forall>e\<in>set fs. e_subject e = s_name s \<and> e_semester e = Some (semester_of s)"
    by (auto simp: adds_def)
  have "timetable st'' = timetable st @ (es @ fs) \<and> length (es @ fs) = m + n \<and>
        (\<forall>e\<in>set (es @ fs). e_subject e = s_name s \<and> e_semester e = Some (semester_of s))"
    using es fs by auto
  then have "\<exists>gs. timetable st'' = timetable st @ gs \<and> length gs = m + n \<and>
        (\<forall>e\<in>set gs. e_subject e = s_name s \<and> e_semester e = Some (semester_of s))"
    by blast
  then show ?thesis
    using assms by (simp add: adds_def same_request_def)
qed

lemma adds_good: "adds s n st st' \<Longrightarrow> good st'"
  by (simp add: adds_def)

lemma adds_same: "adds s n st st' \<Longrightarrow> same_request st st'"
  by (simp add: adds_def)

lemma try_classrooms_ok:
  assumes "good st" "t \<in> set (teachers st)" "set cs \<subseteq> set (classrooms st)"
    "s \<in> set (subjects st)" "day \<in> set (days st)" "slot \<in> set (time_slots st)"
  shows "\<exists>b st'. try_classrooms st s t day slot cs = Some (b, st') \<and>
           adds s (if b then 1 else 0) st st' \<and> (\<not> b \<longrightarrow> st' = st)"
  using assms
proof (induction cs)
  case Nil
  then show ?case by (auto simp: adds_refl)
next
  case (Cons c cs)
  from Cons.prems have wf: "wf_run st" by (simp add: good_def)
  obtain ok where ok: "can_place st s t c day slot = Some ok"
    using can_place_defined [OF wf, of t c s day slot] Cons.prems by auto
  show ?case
  proof (cases ok)
    case True
    with ok place_entry_good [OF Cons.prems(1), of s t c day slot]
    obtain st' where "place_entry st s t c day slot = Some st'" "adds s 1 st st'" by auto
    with ok True show ?thesis by auto
  next
    case False
    with ok Cons show ?thesis by auto
  qed
qed

lemma classroom_free_defined:
  "wf_run st \<Longrightarrow> c \<in> set (classrooms st) \<Longrightarrow> day \<in> set (days st) \<Longrightarrow>
   slot \<in> set (time_slots st) \<Longrightarrow> classroom_free st day slot c \<noteq> None"
  using grid_coversD [of "classroom_schedule st" "classrooms st" "days st" "time_slots st" c day slot]
  by (auto simp: wf_run_def classroom_free_def)

lemma free_classrooms_ok:
  assumes "wf_run st" "day \<in> set (days st)" "slot \<in> set (time_slots st)"
  shows "filter_opt (classroom_free st day slot) (classrooms st) =
           Some (filter (\<lambda>c. classroom_free st day slot c = Some True) (classrooms st))"
  by (rule filter_opt_total) (simp add: classroom_free_defined assms)

lemma same_request_sel:
  "same_request st st' \<Longrightarrow> teachers st' = teachers st"
  "same_request st st' \<Longrightarrow> subjects st' = subjects st"
  "same_request st st' \<Longrightarrow> classrooms st' = classrooms st"
  "same_request st st' \<Longrightarrow> time_slots st' = time_slots st"
  "same_request st st' \<Longrightarrow> days st' = days st"
  by (simp_all add: same_request_def)

lemma try_teachers_ok:
  assumes "good st" "set ts \<subseteq> set (teachers st)"
    "s \<in> set (subjects st)" "day \<in> set (days st)" "slot \<in> set (time_slots st)"
  shows "\<exists>b st'. try_teachers st s day slot ts = Some (b, st') \<and>
           adds s (if b then 1 else 0) st st'"
  using assms
proof (induction ts arbitrary: st)
  case Nil
  then show ?case by (auto simp: adds_refl)
next
  case (Cons t ts)
  show ?case
  proof (cases "is_teacher_available t day slot")
    case False
    with Cons show ?thesis by auto
  next
    case True
    from Cons.prems have wf: "wf_run st" by (simp add: good_def)
    let ?free = "filter (\<lambda>c. classroom_free st day slot c = Some True) (classrooms st)"
    let ?st1 = "st\<lparr>rng := snd (shuffle ?free (rng st))\<rparr>"
    have fo: "filter_opt (classroom_free st day slot) (classrooms st) = Some ?free"
      using free_classrooms_ok [OF wf] Cons.prems by simp
    have "\<exists>b st'. try_classrooms ?st1 s t day slot (fst (shuffle ?free (rng st))) = Some (b, st') \<and>
           adds s (if b then 1 else 0) ?st1 st' \<and> (\<not> b \<longrightarrow> st' = ?st1)"
      by (rule try_classrooms_ok) (use Cons.prems in auto)
    then obtain b st' where tc:
      "try_classrooms ?st1 s t day slot (fst (shuffle ?free (rng st))) = Some (b, st')"
      "adds s (if b then 1 else 0) ?st1 st'" "\<not> b \<longrightarrow> st' = ?st1"
      by blast
    show ?thesis
    proof (cases b)
      case True
      with tc have "adds s 1 st st'" by (auto dest: adds_rng)
      with True tc \<open>is_teacher_available t day slot\<close> fo show ?thesis by auto
    next
      case False
      with tc have st': "st' = ?st1" by simp
      have "\<exists>b st''. try_teachers ?st1 s day slot ts = Some (b, st'') \<and>
              adds s (if b then 1 else 0) ?st1 st''"
        by (rule Cons.IH) (use Cons.prems in auto)
      then obtain b2 st'' where tt: "try_teachers ?st1 s day slot ts = Some (b2, st'')"
        "adds s (if b2 then 1 else 0) ?st1 st''" by blast
      from tt(2) have "adds s (if b2 then 1 else 0) st st''" by (rule adds_rng)
      with tt(1) tc(1) st' False \<open>is_teacher_available t day slot\<close> fo show ?thesis by auto
    qed
  qed
qed

lemma try_candidates_ok:
  assumes "good st" "s \<in> set (subjects st)"
    "\<forall>(sc, day, slot)\<in>set cands. day \<in> set (days st) \<and> slot \<in> set (time_slots st)"
  shows "\<exists>b st'. try_candidates st s cands = Some (b, st') \<and>
           adds s (if b then 1 else 0) st st'"
  using assms
proof (induction cands arbitrary: st)
  case Nil
  then show ?case by (auto simp: adds_refl)
next
  case (Cons cand cands)
  obtain sc day slot where cand: "cand = (sc, day, slot)" by (cases cand) auto
  let ?sh = "shuffle (filter (\<lambda>t. teaches t s) (teachers st)) (rng st)"
  let ?st1 = "st\<lparr>rng := snd ?sh\<rparr>"
  have "\<exists>b st'. try_teachers ?st1 s day slot (fst ?sh) = Some (b, st') \<and>
           adds s (if b then 1 else 0) ?st1 st'"
    by (rule try_teachers_ok) (use Cons.prems cand in auto)
  then obtain b st' where tt: "try_teachers ?st1 s day slot (fst ?sh) = Some (b, st')"
    "adds s (if b then 1 else 0) ?st1 st'" by blast
  from tt(2) have a1: "adds s (if b then 1 else 0) st st'" by (rule adds_rng)
  show ?case
  proof (cases b)
    case True
    with tt(1) a1 cand show ?thesis by auto
  next
    case False
    have sr: "same_request st st'" using a1 by (rule adds_same)
    have "\<exists>b2 st''. try_candidates st' s cands = Some (b2, st'') \<and>
              adds s (if b2 then 1 else 0) st' st''"
      by (rule Cons.IH) (use Cons.prems a1 same_request_sel [OF sr] in \<open>auto simp: adds_good\<close>)
    then obtain b2 st'' where tc: "try_candidates st' s cands = Some (b2, st'')"
      "adds s (if b2 then 1 else 0) st' st''" by blast
    from a1 False tc(2) have "adds s (0 + (if b2 then 1 else 0)) st st''"
      using adds_trans [of s 0 st st' "if b2 then 1 else 0" st''] by simp
    with tc(1) tt(1) False cand show ?thesis by auto
  qed
qed

lemma candidates_in_range:
  "\<forall>(sc, day, slot)\<in>set (candidates st s). day \<in> set (days st) \<and> slot \<in> set (time_slots st)"
  by (auto simp: candidates_def day_slots_def)

lemma attempt_ok:
  assumes "good st" "s \<in> set (subjects st)"
  shows "\<exists>b st'. attempt st s = Some (b, st') \<and> adds s (if b then 1 else 0) st st'"
  unfolding attempt_def
  by (rule try_candidates_ok [OF assms candidates_in_range])


lemma place_sessions_ok:
  assumes "good st" "s \<in> set (subjects st)"
  shows "\<exists>p g st'. place_sessions st s placed guard = Some (p, g, st') \<and>
           adds s (nat (p - placed)) st st' \<and> placed \<le> p \<and> p \<le> max placed (sessions_of s) \<and>
           guard \<le> g \<and> g \<le> max guard (sessions_of s * 300) \<and> g - guard \<le> p - placed + 1"
  using assms
proof (induction st s placed guard rule: place_sessions.induct)
  case (1 st s placed guard)
  show ?case
  proof (cases "placed < sessions_of s \<and> guard < sessions_of s * 300")
    case False
    then have "place_sessions st s placed guard = Some (placed, guard, st)"
      by (subst place_sessions.simps) auto
    with "1.prems" show ?thesis by (simp add: adds_refl)
  next
    case True
    obtain b st1 where at: "attempt st s = Some (b, st1)" "adds s (if b then 1 else 0) st st1"
      using attempt_ok [OF "1.prems"] by blast
    show ?thesis
    proof (cases b)
      case False
      with at True have "place_sessions st s placed guard = Some (placed, guard + 1, st1)"
        by (subst place_sessions.simps) auto
      with at False True show ?thesis by simp
    next
      case b: True
      have g1: "good st1" using at(2) by (rule adds_good)
      have s1: "s \<in> set (subjects st1)"
        using same_request_sel(2) [OF adds_same [OF at(2)]] "1.prems" by simp
      obtain p g st' where ih:
        "place_sessions st1 s (placed + 1) (guard + 1) = Some (p, g, st')"
        "adds s (nat (p - (placed + 1))) st1 st'" "placed + 1 \<le> p"
        "p \<le> max (placed + 1) (sessions_of s)" "guard + 1 \<le> g"
        "g \<le> max (guard + 1) (sessions_of s * 300)" "g - (guard + 1) \<le> p - (placed + 1) + 1"
        using "1.IH" [OF True at(1) refl b g1 s1] by blast
      have ps: "place_sessions st s placed guard = Some (p, g, st')"
        using True at(1) b ih(1) by (subst place_sessions.simps) auto
      have "adds s (1 + nat (p - (placed + 1))) st st'"
        using adds_trans [of s 1 st st1 "nat (p - (placed + 1))" st'] at(2) b ih(2) by simp
      moreover have "1 + nat (p - (placed + 1)) = nat (p - placed)"
        using ih(3) by simp
      ultimately have ad: "adds s (nat (p - placed)) st st'" by simp
      show ?thesis
        using ps ad ih(3-7) True by simp
    qed
  qed
qed

section \<open>The generator: suggestions, subjects and the whole run\<close>

lemma teacher_free_defined:
  "wf_run st \<Longrightarrow> t \<in> set (teachers st) \<Longrightarrow> day \<in> set (days st) \<Longrightarrow>
   slot \<in> set (time_slots st) \<Longrightarrow> teacher_free st s day slot t \<noteq> None"
  using grid_coversD [of "teacher_schedule st" "map t_name (teachers st)" "days st" "time_slots st"
      "t_name t" day slot]
  by (auto simp: wf_run_def teacher_free_def)

lemma teacher_free_True:
  "teacher_free st s day slot t = Some True \<longleftrightarrow>
     teaches t s \<and> grid_get (teacher_schedule st) (t_name t) day slot = Some False \<and>
     is_teacher_available t day slot"
  by (auto simp: teacher_free_def split: option.splits)

lemma classroom_free_True:
  "classroom_free st day slot c = Some True \<longleftrightarrow>
     grid_get (classroom_schedule st) c day slot = Some False"
  by (auto simp: classroom_free_def split: option.splits)

lemma suggest_scan_eq:
  assumes "wf_run st" "s \<in> set (subjects st)"
    "\<forall>p\<in>set pairs. fst p \<in> set (days st) \<and> snd p \<in> set (time_slots st)"
  shows "suggest_scan st s m pairs acc =
     Some (acc @ take (max 1 (nat (m - int (length acc))))
                   (map suggestion (filter (qualifies st s) pairs)))"
  using assms(3)
proof (induction pairs arbitrary: acc)
  case Nil
  show ?case by simp
next
  case (Cons p pairs)
  obtain day slot where p: "p = (day, slot)" by (cases p) auto
  with Cons.prems have d: "day \<in> set (days st)" and sl: "slot \<in> set (time_slots st)" by auto
  have IH: "suggest_scan st s m pairs acc' =
     Some (acc' @ take (max 1 (nat (m - int (length acc'))))
                   (map suggestion (filter (qualifies st s) pairs)))" for acc'
    using Cons.IH Cons.prems by simp
  let ?ts = "filter (\<lambda>t. teacher_free st s day slot t = Some True) (teachers st)"
  let ?cs = "filter (\<lambda>c. classroom_free st day slot c = Some True) (classrooms st)"
  have ft: "filter_opt (teacher_free st s day slot) (teachers st) = Some ?ts"
    by (rule filter_opt_total) (simp add: teacher_free_defined assms d sl)
  have fc: "filter_opt (classroom_free st day slot) (classrooms st) = Some ?cs"
    by (rule free_classrooms_ok [OF assms(1) d sl])
  obtain occ where occ: "grid_get (cohort_schedule st) (semester_of s) day slot = Some occ"
    using grid_coversD [of "cohort_schedule st" "map semester_of (subjects st)" "days st"
        "time_slots st" "semester_of s" day slot] assms d sl
    by (auto simp: wf_run_def)
  have q: "qualifies st s (day, slot) \<longleftrightarrow> ?ts \<noteq> [] \<and> ?cs \<noteq> [] \<and> \<not> occ"
    using occ by (auto simp: qualifies_def filter_empty_conv teacher_free_True classroom_free_True)
  show ?case
  proof (cases "qualifies st s (day, slot)")
    case False
    with q have "?ts = [] \<or> ?cs = [] \<or> occ" by blast
    then show ?thesis
      using False by (auto simp: p ft fc occ IH)
  next
    case True
    with q have ne: "?ts \<noteq> []" "?cs \<noteq> []" "\<not> occ" by simp_all
    have sg: "suggestion (day, slot) = day @ '' @ '' @ slot" by (simp add: suggestion_def)
    have nz: "\<not> m \<le> 1 + int (length acc) \<Longrightarrow>
        nat (m - int (length acc)) = Suc (nat (m - (1 + int (length acc))))"
      by arith
    show ?thesis
      using True ne
      by (simp add: p ft fc occ IH sg nz)
  qed
qed

lemma day_slots_in_range:
  "\<forall>p\<in>set (day_slots st). fst p \<in> set (days st) \<and> snd p \<in> set (time_slots st)"
  by (auto simp: day_slots_def)

lemma suggest_alternatives_eq:
  assumes "wf_run st" "s \<in> set (subjects st)"
  shows "suggest_alternatives st s m =
     Some (take (max 1 (nat m)) (map suggestion (filter (qualifies st s) (day_slots st))))"
  using suggest_scan_eq [OF assms day_slots_in_range, of m "[]"]
  by (simp add: suggest_alternatives_def)


lemma schedule_subject_ok:
  assumes "good st" "s \<in> set (subjects st)"
  shows "\<exists>st' es cs. schedule_subject st s = Some st' \<and>
           timetable st' = timetable st @ es \<and> conflicts st' = conflicts st @ cs \<and>
           subject_outcome s es cs \<and> good st' \<and> same_request st st'"
proof -
  obtain p g st1 where ps: "place_sessions st s 0 0 = Some (p, g, st1)"
    and ad: "adds s (nat (p - 0)) st st1" and p0: "0 \<le> p" and pn: "p \<le> max 0 (sessions_of s)"
    using place_sessions_ok [OF assms, of 0 0] by blast
  from ad obtain es where es: "timetable st1 = timetable st @ es" "length es = nat p"
    "\<forall>e\<in>set es. e_subject e = s_name s \<and> e_semester e = Some (semester_of s)"
    by (auto simp: adds_def)
  have g1: "good st1" using ad by (rule adds_good)
  have sr: "same_request st st1" using ad by (rule adds_same)
  have c1: "conflicts st1 = conflicts st" using ad by (simp add: adds_def)
  have len: "int (length es) = p" using es(2) p0 by simp
  show ?thesis
  proof (cases "p < sessions_of s")
    case False
    then have "schedule_subject st s = Some st1"
      by (simp add: schedule_subject_def ps)
    moreover have "subject_outcome s es []"
      using False es(3) pn len by (auto simp: subject_outcome_def)
    ultimately show ?thesis using es(1) c1 g1 sr by auto
  next
    case True
    let ?sug = "take (max 1 (nat 5)) (map suggestion (filter (qualifies st1 s) (day_slots st1)))"
    let ?c = "Unplaced (semester_of s) [s_name s] (sessions_of s - p) ?sug"
    let ?st' = "st1\<lparr>conflicts := conflicts st1 @ [?c]\<rparr>"
    have s1: "s \<in> set (subjects st1)" using same_request_sel(2) [OF sr] assms by simp
    have sa: "suggest_alternatives st1 s 5 = Some ?sug"
      using g1 s1 by (intro suggest_alternatives_eq) (simp_all add: good_def)
    have ss: "schedule_subject st s = Some ?st'"
      using True by (simp add: schedule_subject_def ps sa)
    have "length ?sug \<le> 5" by simp
    then have so: "subject_outcome s es [?c]"
      using True es(3) len by (auto simp: subject_outcome_def)
    have g': "good ?st'" using g1 by (simp add: good_def wf_run_def booked_def)
    have sr': "same_request st ?st'" using sr by (simp add: same_request_def)
    show ?thesis using ss es(1) c1 so g' sr' by auto
  qed
qed

lemma schedule_all_ok:
  assumes "good st" "set ss \<subseteq> set (subjects st)"
  shows "\<exists>st' outs. schedule_all st ss = Some st' \<and>
           list_all2 (\<lambda>s out. subject_outcome s (fst out) (snd out)) ss outs \<and>
           timetable st' = timetable st @ concat (map fst outs) \<and>
           conflicts st' = conflicts st @ concat (map snd outs) \<and>
           good st' \<and> same_request st st'"
  using assms
proof (induction ss arbitrary: st)
  case Nil
  have "list_all2 (\<lambda>s out. subject_outcome s (fst out) (snd out)) [] []" by simp
  then show ?case using Nil by (auto simp: same_request_def intro!: exI [of _ "[]"])
next
  case (Cons s ss)
  obtain st1 es cs where one: "schedule_subject st s = Some st1"
    "timetable st1 = timetable st @ es" "conflicts st1 = conflicts st @ cs"
    "subject_outcome s es cs" "good st1" "same_request st st1"
    using schedule_subject_ok [of st s] Cons.prems by auto
  have "set ss \<subseteq> set (subjects st1)"
    using same_request_sel(2) [OF one(6)] Cons.prems by simp
  then obtain st' outs where rest: "schedule_all st1 ss = Some st'"
    "list_all2 (\<lambda>s out. subject_outcome s (fst out) (snd out)) ss outs"
    "timetable st' = timetable st1 @ concat (map fst outs)"
    "conflicts st' = conflicts st1 @ concat (map snd outs)"
    "good st'" "same_request st1 st'"
    using Cons.IH [OF one(5)] by blast
  have "schedule_all st (s # ss) = Some st'" using one(1) rest(1) by simp
  moreover have "list_all2 (\<lambda>s out. subject_outcome s (fst out) (snd out)) (s # ss) ((es, cs) # outs)"
    using one(4) rest(2) by simp
  moreover have "timetable st' = timetable st @ concat (map fst ((es, cs) # outs))"
    using one(2) rest(3) by simp
  moreover have "conflicts st' = conflicts st @ concat (map snd ((es, cs) # outs))"
    using one(3) rest(4) by simp
  moreover have "same_request st st'"
    using one(6) rest(6) by (simp add: same_request_def)
  ultimately show ?case using rest(5) by blast
qed

lemma semester_in_cohorts: "s \<in> set (subjects g) \<Longrightarrow> semester_of s \<in> set (cohorts g)"
  by (auto simp: cohorts_def)

lemma good_init_run: "good (init_run self r)"
proof -
  have "wf_run (init_run self r)"
    by (auto simp: wf_run_def grid_covers_def init_run_def grid_get_init semester_in_cohorts)
  moreover have "booked (init_run self r)" by (simp add: booked_def init_run_def)
  moreover have "no_double_booking (timetable (init_run self r))"
    by (simp add: no_double_booking_def init_run_def)
  ultimately show ?thesis by (simp add: good_def)
qed

lemma distinct_filter_le_one:
  "distinct (map f xs) \<Longrightarrow> length (filter (\<lambda>e. f e = k) xs) \<le> 1"
  by (induction xs) (auto simp: filter_key_absent)

lemma sub_group_le_one:
  assumes "no_double_booking tt"
  shows "length (sub_group ty who day slot tt) \<le> 1"
proof -
  have d: "distinct (map (\<lambda>e. (clash_key ty e, e_day e, e_time_slot e)) tt)"
    using assms by (cases ty) (simp_all add: no_double_booking_def clash_key_def)
  have eq: "sub_group ty who day slot tt =
        filter (\<lambda>e. (clash_key ty e, e_day e, e_time_slot e) = (who, day, slot)) tt"
    by (auto simp: sub_group_def intro: filter_cong)
  show ?thesis
    unfolding eq by (rule distinct_filter_le_one [OF d])
qed

lemma clash_records_Nil_iff:
  "clash_records tt = [] \<longleftrightarrow> (\<forall>ty who day slot. length (sub_group ty who day slot tt) \<le> 1)"
proof
  assume e: "clash_records tt = []"
  show "\<forall>ty who day slot. length (sub_group ty who day slot tt) \<le> 1"
  proof (intro allI)
    fix ty who day slot
    show "length (sub_group ty who day slot tt) \<le> 1"
      using filter_clash_records [of ty who day slot tt] e
      by (auto split: if_splits)
  qed
next
  assume a: "\<forall>ty who day slot. length (sub_group ty who day slot tt) \<le> 1"
  show "clash_records tt = []"
  proof (rule ccontr)
    assume "clash_records tt \<noteq> []"
    then obtain c where c: "c \<in> set (clash_records tt)" by (cases "clash_records tt") auto
    then have "is_clash c" by (rule clash_records_is_clash)
    then obtain ty who day slot subs where cc: "c = Clash ty who day slot subs"
      by (cases c) auto
    then have "c \<in> set (filter (clash_about ty who day slot) (clash_records tt))"
      using c by simp
    moreover have "filter (clash_about ty who day slot) (clash_records tt) = []"
      using a filter_clash_records [of ty who day slot tt]
      by (metis not_less)
    ultimately show False by simp
  qed
qed

lemma generate_run_ok:
  "\<exists>st outs. generate_run self r = Some st \<and>
     list_all2 (\<lambda>s out. subject_outcome s (fst out) (snd out)) (subjects self) outs \<and>
     timetable st = concat (map fst outs) \<and> conflicts st = concat (map snd outs) \<and>
     no_double_booking (timetable st) \<and> clash_records (timetable st) = []"
proof -
  have "set (subjects self) \<subseteq> set (subjects (init_run self r))" by (simp add: init_run_def)
  then obtain st outs where sa: "schedule_all (init_run self r) (subjects self) = Some st"
    "list_all2 (\<lambda>s out. subject_outcome s (fst out) (snd out)) (subjects self) outs"
    "timetable st = timetable (init_run self r) @ concat (map fst outs)"
    "conflicts st = conflicts (init_run self r) @ concat (map snd outs)"
    "good st"
    using schedule_all_ok [OF good_init_run, of "subjects self" self r] by blast
  have nd: "no_double_booking (timetable st)" using sa(5) by (simp add: good_def)
  have cr: "clash_records (timetable st) = []"
    using sub_group_le_one [OF nd] by (simp add: clash_records_Nil_iff)
  have "generate_run self r = Some (detect_conflicts st)"
    by (simp add: generate_run_def sa(1))
  moreover have "timetable (detect_conflicts st) = concat (map fst outs)"
    using sa(3) by (simp add: detect_conflicts_def init_run_def)
  moreover have "conflicts (detect_conflicts st) = concat (map snd outs)"
    using sa(4) cr by (simp add: detect_conflicts_def init_run_def)
  ultimately show ?thesis using sa(2) nd cr by (auto simp: detect_conflicts_def)
qed

section \<open>The generator: degenerate requests and the default of the sessions per week\<close>

lemma try_candidates_no_teacher:
  "filter (\<lambda>t. teaches t s) (teachers st) = [] \<Longrightarrow> try_candidates st s cands = Some (False, st)"
  by (induction cands) auto

lemma day_slots_Nil: "days st = [] \<or> time_slots st = [] \<Longrightarrow> day_slots st = []"
  by (auto simp: day_slots_def)

lemma attempt_nowhere:
  assumes "filter (\<lambda>t. teaches t s) (teachers st) = [] \<or> days st = [] \<or> time_slots st = []"
  shows "attempt st s = Some (False, st)"
proof (cases "filter (\<lambda>t. teaches t s) (teachers st) = []")
  case True
  then show ?thesis by (simp add: attempt_def try_candidates_no_teacher)
next
  case False
  with assms have "day_slots st = []" by (simp add: day_slots_Nil)
  then show ?thesis by (simp add: attempt_def candidates_def)
qed

lemma filter_opt_none_free:
  "filter (\<lambda>t. teaches t s) ts = [] \<Longrightarrow> filter_opt (teacher_free st s day slot) ts = Some []"
  by (induction ts) (auto simp: teacher_free_def split: if_splits)

lemma suggest_scan_no_teacher:
  "filter (\<lambda>t. teaches t s) (teachers st) = [] \<Longrightarrow> suggest_scan st s m pairs acc = Some acc"
  by (induction pairs) (auto simp: filter_opt_none_free)

lemma suggest_nowhere:
  assumes "filter (\<lambda>t. teaches t s) (teachers st) = [] \<or> days st = [] \<or> time_slots st = []"
  shows "suggest_alternatives st s m = Some []"
proof (cases "filter (\<lambda>t. teaches t s) (teachers st) = []")
  case True
  then show ?thesis by (simp add: suggest_alternatives_def suggest_scan_no_teacher)
next
  case False
  with assms have "day_slots st = []" by (simp add: day_slots_Nil)
  then show ?thesis by (simp add: suggest_alternatives_def)
qed

lemma place_sessions_stop:
  "placed < sessions_of s \<Longrightarrow> guard < sessions_of s * 300 \<Longrightarrow> attempt st s = Some (False, st') \<Longrightarrow>
   place_sessions st s placed guard = Some (placed, guard + 1, st')"
  by (subst place_sessions.simps) simp

lemma place_sessions_done:
  "\<not> (placed < sessions_of s \<and> guard < sessions_of s * 300) \<Longrightarrow>
   place_sessions st s placed guard = Some (placed, guard, st)"
  by (subst place_sessions.simps) auto

lemma schedule_subject_nowhere:
  assumes "filter (\<lambda>t. teaches t s) (teachers st) = [] \<or> days st = [] \<or> time_slots st = []"
  shows "schedule_subject st s =
     Some (if 0 < sessions_of s
           then st\<lparr>conflicts := conflicts st @
                  [Unplaced (semester_of s) [s_name s] (sessions_of s) []]\<rparr>
           else st)"
proof (cases "0 < sessions_of s")
  case True
  then have "place_sessions st s 0 0 = Some (0, 0 + 1, st)"
    by (intro place_sessions_stop attempt_nowhere assms) simp_all
  then show ?thesis
    using True by (simp add: schedule_subject_def suggest_nowhere [OF assms])
next
  case False
  then have "place_sessions st s 0 0 = Some (0, 0, st)"
    by (intro place_sessions_done) simp
  then show ?thesis
    using False by (simp add: schedule_subject_def)
qed

lemma generate_total: "\<exists>tt cs. generate self r = Some (tt, cs)"
  using generate_run_ok [of self r] by (auto simp: generate_def)

lemma semester_of_upd [simp]: "semester_of (s\<lparr>s_sessions_per_week := v\<rparr>) = semester_of s"
  by (simp add: semester_of_def)

lemma teaches_upd [simp]: "teaches t (s\<lparr>s_sessions_per_week := v\<rparr>) = teaches t s"
  by (simp add: teaches_def)

lemma can_place_upd [simp]:
  "can_place st (s\<lparr>s_sessions_per_week := v\<rparr>) t c day slot = can_place st s t c day slot"
  by (simp add: can_place_def cong: option.case_cong if_cong)

lemma place_entry_upd [simp]:
  "place_entry st (s\<lparr>s_sessions_per_week := v\<rparr>) t c day slot = place_entry st s t c day slot"
  by (simp add: place_entry_def new_entry_def cong: option.case_cong)

lemma try_classrooms_upd [simp]:
  "try_classrooms st (s\<lparr>s_sessions_per_week := v\<rparr>) t day slot cs = try_classrooms st s t day slot cs"
  by (induction cs) (simp_all cong: option.case_cong if_cong)

lemma try_teachers_upd [simp]:
  "try_teachers st (s\<lparr>s_sessions_per_week := v\<rparr>) day slot ts = try_teachers st s day slot ts"
  by (induction ts arbitrary: st) (simp_all split: option.splits)

lemma try_candidates_upd [simp]:
  "try_candidates st (s\<lparr>s_sessions_per_week := v\<rparr>) cands = try_candidates st s cands"
  by (induction cands arbitrary: st) (auto split: option.splits)

lemma attempt_upd [simp]: "attempt st (s\<lparr>s_sessions_per_week := v\<rparr>) = attempt st s"
  by (simp add: attempt_def candidates_def)

lemma teacher_free_upd [simp]:
  "teacher_free st (s\<lparr>s_sessions_per_week := v\<rparr>) day slot = teacher_free st s day slot"
  by (rule ext) (simp add: teacher_free_def)

lemma suggest_scan_upd [simp]:
  "suggest_scan st (s\<lparr>s_sessions_per_week := v\<rparr>) m pairs acc = suggest_scan st s m pairs acc"
  by (induction pairs arbitrary: acc) (auto split: option.splits)

lemma suggest_alternatives_upd [simp]:
  "suggest_alternatives st (s\<lparr>s_sessions_per_week := v\<rparr>) m = suggest_alternatives st s m"
  by (simp add: suggest_alternatives_def)

lemma place_sessions_upd:
  "sessions_of (s\<lparr>s_sessions_per_week := v\<rparr>) = sessions_of s \<Longrightarrow>
   place_sessions st (s\<lparr>s_sessions_per_week := v\<rparr>) placed guard = place_sessions st s placed guard"
proof (induction st s placed guard rule: place_sessions.induct)
  case (1 st s placed guard)
  show ?case
    apply (subst place_sessions.simps)
    apply (subst (2) place_sessions.simps)
    using 1 by (auto split: option.splits)
qed

lemma schedule_subject_upd:
  "sessions_of (s\<lparr>s_sessions_per_week := v\<rparr>) = sessions_of s \<Longrightarrow>
   schedule_subject st (s\<lparr>s_sessions_per_week := v\<rparr>) = schedule_subject st s"
  by (auto simp: schedule_subject_def place_sessions_upd split: option.splits)

section \<open>The claims about the generator\<close>

lemma outcomes_not_clash:
  "list_all2 (\<lambda>s out. subject_outcome s (fst out) (snd out)) ss outs \<Longrightarrow>
   filter is_clash (concat (map snd outs)) = []"
  by (induction rule: list_all2_induct) (auto simp: subject_outcome_def split: if_splits)

lemma generate_example:
  "generate (TimetableGenerator
      [\<lparr>t_name = ''ann'', t_subjects = [''Math''], t_availability = Map.empty\<rparr>]
      [\<lparr>s_name = ''math'', s_semester = Some ''A'', s_sessions_per_week = Some 2\<rparr>]
      [''r1''] [''9''] [''Mon''] []) (\<lambda>n. 0) =
   Some ([\<lparr>e_day = ''Mon'', e_time_slot = ''9'', e_subject = ''math'',
           e_teacher = ''ann'', e_classroom = ''r1'', e_semester = Some ''A'',
           e_subject_color = ''hsl(96,65%,85%)''\<rparr>],
         [Unplaced ''A'' [''math''] 1 []])"
  by code_simp

text \<open>
  C1. Every run of \<open>generate\<close> returns, and in the timetable it returns each teacher, each
  classroom and each cohort has at most one entry at any day and slot; the detector finds no
  clash in it, and no clash record is among the returned conflicts. For any timetable the
  two say the same: the detector reports nothing exactly when every sub-group has at most
  one entry.
\<close>

theorem generate_no_double_booking:
  "(\<exists>tt cs. generate self r = Some (tt, cs) \<and>
     (\<forall>ty who day slot. length (sub_group ty who day slot tt) \<le> 1) \<and>
     clash_records tt = [] \<and> filter is_clash cs = []) \<and>
   (clash_records tt' = [] \<longleftrightarrow>
     (\<forall>ty who day slot. length (sub_group ty who day slot tt') \<le> 1))"
proof -
  obtain st outs where g: "generate_run self r = Some st"
    "list_all2 (\<lambda>s out. subject_outcome s (fst out) (snd out)) (subjects self) outs"
    "conflicts st = concat (map snd outs)"
    "no_double_booking (timetable st)" "clash_records (timetable st) = []"
    using generate_run_ok [of self r] by blast
  have "generate self r = Some (timetable st, conflicts st)"
    by (simp add: generate_def g(1))
  moreover have "\<forall>ty who day slot. length (sub_group ty who day slot (timetable st)) \<le> 1"
    using sub_group_le_one [OF g(4)] by blast
  moreover have "filter is_clash (conflicts st) = []"
    using outcomes_not_clash [OF g(2)] g(3) by simp
  ultimately have "\<exists>tt cs. generate self r = Some (tt, cs) \<and>
     (\<forall>ty who day slot. length (sub_group ty who day slot tt) \<le> 1) \<and>
     clash_records tt = [] \<and> filter is_clash cs = []"
    using g(5) by blast
  then show ?thesis using clash_records_Nil_iff [of tt'] by blast
qed

theorem generate_no_double_booking_witness:
  "length (sub_group Teacher ''ann'' ''Mon'' ''9''
      (fst (the (generate (TimetableGenerator
        [\<lparr>t_name = ''ann'', t_subjects = [''Math''], t_availability = Map.empty\<rparr>]
        [\<lparr>s_name = ''math'', s_semester = Some ''A'', s_sessions_per_week = Some 2\<rparr>]
        [''r1''] [''9''] [''Mon''] []) (\<lambda>n. 0))))) = 1 \<and>
   clash_records
      (fst (the (generate (TimetableGenerator
        [\<lparr>t_name = ''ann'', t_subjects = [''Math''], t_availability = Map.empty\<rparr>]
        [\<lparr>s_name = ''math'', s_semester = Some ''A'', s_sessions_per_week = Some 2\<rparr>]
        [''r1''] [''9''] [''Mon''] []) (\<lambda>n. 0)))) = []"
proof -
  let ?G = "TimetableGenerator
        [\<lparr>t_name = ''ann'', t_subjects = [''Math''], t_availability = Map.empty\<rparr>]
        [\<lparr>s_name = ''math'', s_semester = Some ''A'', s_sessions_per_week = Some 2\<rparr>]
        [''r1''] [''9''] [''Mon''] []"
  obtain tt cs where g: "generate ?G (\<lambda>n. 0) = Some (tt, cs)" "clash_records tt = []"
    using generate_no_double_booking [of ?G "\<lambda>n. 0" "[]"] by blast
  have "length (sub_group Teacher ''ann'' ''Mon'' ''9'' (fst (the (generate ?G (\<lambda>n. 0))))) = 1"
    by (simp add: generate_example sub_group_def clash_key_def)
  with g show ?thesis by simp
qed

text \<open>
  C3. \<open>can_place\<close> answers true exactly when the teacher, the classroom and the cohort of
  the subject are all marked free at the day and slot in their grids and the availability of
  the teacher either has no entry for the day or lists the slot. On the grids of a run it
  always answers: it reads cells that exist. It returns a truth value only; the run it reads
  is not among its results.
\<close>

theorem can_place_feasible:
  "(can_place st s t classroom day slot = Some True \<longleftrightarrow>
      grid_get (teacher_schedule st) (t_name t) day slot = Some False \<and>
      grid_get (classroom_schedule st) classroom day slot = Some False \<and>
      grid_get (cohort_schedule st) (semester_of s) day slot = Some False \<and>
      (case t_availability t day of None \<Rightarrow> True | Some allowed \<Rightarrow> slot \<in> set allowed)) \<and>
   (wf_run st \<and> t \<in> set (teachers st) \<and> classroom \<in> set (classrooms st) \<and>
    s \<in> set (subjects st) \<and> day \<in> set (days st) \<and> slot \<in> set (time_slots st) \<longrightarrow>
      can_place st s t classroom day slot \<noteq> None)"
  using can_place_defined [of st t classroom s day slot]
  by (auto simp: can_place_True_iff is_teacher_available_def)

theorem can_place_feasible_witness:
  "can_place
     (init_run (TimetableGenerator
        [\<lparr>t_name = ''ann'', t_subjects = [''Math''], t_availability = [''Mon'' \<mapsto> [''9'']]\<rparr>]
        [\<lparr>s_name = ''math'', s_semester = Some ''A'', s_sessions_per_week = Some 2\<rparr>]
        [''r1''] [''9'', ''10''] [''Mon''] []) (\<lambda>n. 0))
     \<lparr>s_name = ''math'', s_semester = Some ''A'', s_sessions_per_week = Some 2\<rparr>
     \<lparr>t_name = ''ann'', t_subjects = [''Math''], t_availability = [''Mon'' \<mapsto> [''9'']]\<rparr>
     ''r1'' ''Mon'' ''9'' = Some True \<and>
   can_place
     (init_run (TimetableGenerator
        [\<lparr>t_name = ''ann'', t_subjects = [''Math''], t_availability = [''Mon'' \<mapsto> [''9'']]\<rparr>]
        [\<lparr>s_name = ''math'', s_semester = Some ''A'', s_sessions_per_week = Some 2\<rparr>]
        [''r1''] [''9'', ''10''] [''Mon''] []) (\<lambda>n. 0))
     \<lparr>s_name = ''math'', s_semester = Some ''A'', s_sessions_per_week = Some 2\<rparr>
     \<lparr>t_name = ''ann'', t_subjects = [''Math''], t_availability = [''Mon'' \<mapsto> [''9'']]\<rparr>
     ''r1'' ''Mon'' ''10'' \<noteq> Some True"
proof -
  let ?T = "\<lparr>t_name = ''ann'', t_subjects = [''Math''], t_availability = [''Mon'' \<mapsto> [''9'']]\<rparr>"
  let ?S = "\<lparr>s_name = ''math'', s_semester = Some ''A'', s_sessions_per_week = Some 2\<rparr>"
  let ?st = "init_run (TimetableGenerator [?T] [?S] [''r1''] [''9'', ''10''] [''Mon''] []) (\<lambda>n. 0)"
  have a: "can_place ?st ?S ?T ''r1'' ''Mon'' ''9'' = Some True"
    using can_place_feasible [of ?st ?S ?T "''r1''" "''Mon''" "''9''"]
    by (simp add: init_run_def TimetableGenerator_def grid_get_init cohorts_def semester_of_def)
  have b: "can_place ?st ?S ?T ''r1'' ''Mon'' ''10'' \<noteq> Some True"
    using can_place_feasible [of ?st ?S ?T "''r1''" "''Mon''" "''10''"]
    by (simp add: init_run_def TimetableGenerator_def grid_get_init cohorts_def semester_of_def)
  from a b show ?thesis by blast
qed

text \<open>
  C4. Every run of \<open>generate\<close> returns a timetable and conflicts made of one block per
  subject, in the order of the subjects: the entries placed for the subject, at most as many
  as it requires (when that number is not negative), and its conflicts, which are one
  unplaced-sessions record with the number of missing sessions and at most five suggestions
  when fewer entries were placed than required, and none otherwise.
\<close>

theorem session_count_bound:
  "\<exists>tt cs outs. generate self r = Some (tt, cs) \<and>
     list_all2 (\<lambda>s out. subject_outcome s (fst out) (snd out)) (subjects self) outs \<and>
     tt = concat (map fst outs) \<and> cs = concat (map snd outs)"
proof -
  obtain st outs where g: "generate_run self r = Some st"
    "list_all2 (\<lambda>s out. subject_outcome s (fst out) (snd out)) (subjects self) outs"
    "timetable st = concat (map fst outs)" "conflicts st = concat (map snd outs)"
    using generate_run_ok [of self r] by blast
  have "generate self r = Some (timetable st, conflicts st)"
    by (simp add: generate_def g(1))
  with g(2-4) show ?thesis by blast
qed

theorem session_count_bound_witness:
  "subject_outcome \<lparr>s_name = ''math'', s_semester = Some ''A'', s_sessions_per_week = Some 2\<rparr>
     (fst (the (generate (TimetableGenerator
        [\<lparr>t_name = ''ann'', t_subjects = [''Math''], t_availability = Map.empty\<rparr>]
        [\<lparr>s_name = ''math'', s_semester = Some ''A'', s_sessions_per_week = Some 2\<rparr>]
        [''r1''] [''9''] [''Mon''] []) (\<lambda>n. 0))))
     (snd (the (generate (TimetableGenerator
        [\<lparr>t_name = ''ann'', t_subjects = [''Math''], t_availability = Map.empty\<rparr>]
        [\<lparr>s_name = ''math'', s_semester = Some ''A'', s_sessions_per_week = Some 2\<rparr>]
        [''r1''] [''9''] [''Mon''] []) (\<lambda>n. 0)))) \<and>
   snd (the (generate (TimetableGenerator
        [\<lparr>t_name = ''ann'', t_subjects = [''Math''], t_availability = Map.empty\<rparr>]
        [\<lparr>s_name = ''math'', s_semester = Some ''A'', s_sessions_per_week = Some 2\<rparr>]
        [''r1''] [''9''] [''Mon''] []) (\<lambda>n. 0))) = [Unplaced ''A'' [''math''] 1 []]"
proof -
  let ?S = "\<lparr>s_name = ''math'', s_semester = Some ''A'', s_sessions_per_week = Some 2\<rparr>"
  let ?G = "TimetableGenerator
        [\<lparr>t_name = ''ann'', t_subjects = [''Math''], t_availability = Map.empty\<rparr>]
        [?S] [''r1''] [''9''] [''Mon''] []"
  obtain tt cs outs where g: "generate ?G (\<lambda>n. 0) = Some (tt, cs)"
    "list_all2 (\<lambda>s out. subject_outcome s (fst out) (snd out)) (subjects ?G) outs"
    "tt = concat (map fst outs)" "cs = concat (map snd outs)"
    using session_count_bound [of ?G "\<lambda>n. 0"] by blast
  from g(2) obtain out where "outs = [out]" "subject_outcome ?S (fst out) (snd out)"
    by (auto simp: TimetableGenerator_def list_all2_Cons1)
  with g(1,3,4) have "subject_outcome ?S (fst (the (generate ?G (\<lambda>n. 0))))
      (snd (the (generate ?G (\<lambda>n. 0))))"
    by simp
  then show ?thesis by (simp add: generate_example)
qed

text \<open>
  C7, as stated, fails for a subject that requires no session: no teacher teaches it, and
  the run returns no unplaced-sessions conflict for it.
\<close>

theorem graceful_degradation_counterexample:
  "filter (\<lambda>t. teaches t \<lparr>s_name = ''math'', s_semester = Some ''A'', s_sessions_per_week = Some 0\<rparr>)
      [\<lparr>t_name = ''ann'', t_subjects = [''Art''], t_availability = Map.empty\<rparr>] = [] \<and>
   generate (TimetableGenerator
      [\<lparr>t_name = ''ann'', t_subjects = [''Art''], t_availability = Map.empty\<rparr>]
      [\<lparr>s_name = ''math'', s_semester = Some ''A'', s_sessions_per_week = Some 0\<rparr>]
      [''r1''] [''9''] [''Mon''] []) (\<lambda>n. 0) = Some ([], [])"
  by code_simp

text \<open>
  C7, amended. Every run of \<open>generate\<close> returns a timetable and conflicts; it never raises.
  A subject that no teacher teaches, and any subject when the list of days or of slots is
  empty, gets no entry; when it requires at least one session it gets one unplaced-sessions
  conflict with all its sessions missing and no suggestion, and when it requires none it
  gets no conflict.
\<close>

theorem generate_never_raises:
  "(\<exists>tt cs. generate self r = Some (tt, cs)) \<and>
   (filter (\<lambda>t. teaches t s) (teachers st) = [] \<or> days st = [] \<or> time_slots st = [] \<longrightarrow>
      schedule_subject st s =
        Some (if 0 < sessions_of s
              then st\<lparr>conflicts := conflicts st @
                     [Unplaced (semester_of s) [s_name s] (sessions_of s) []]\<rparr>
              else st))"
  using generate_total [of self r] schedule_subject_nowhere [of s st] by blast

theorem generate_never_raises_witness:
  "conflicts (the (schedule_subject
     (init_run (TimetableGenerator
        [\<lparr>t_name = ''ann'', t_subjects = [''Art''], t_availability = Map.empty\<rparr>]
        [\<lparr>s_name = ''math'', s_semester = Some ''A'', s_sessions_per_week = Some 2\<rparr>]
        [''r1''] [''9''] [''Mon''] []) (\<lambda>n. 0))
     \<lparr>s_name = ''math'', s_semester = Some ''A'', s_sessions_per_week = Some 2\<rparr>)) =
     [Unplaced ''A'' [''math''] 2 []] \<and>
   timetable (the (schedule_subject
     (init_run (TimetableGenerator
        [\<lparr>t_name = ''ann'', t_subjects = [''Art''], t_availability = Map.empty\<rparr>]
        [\<lparr>s_name = ''math'', s_semester = Some ''A'', s_sessions_per_week = Some 2\<rparr>]
        [''r1''] [''9''] [''Mon''] []) (\<lambda>n. 0))
     \<lparr>s_name = ''math'', s_semester = Some ''A'', s_sessions_per_week = Some 2\<rparr>)) = []"
proof -
  let ?S = "\<lparr>s_name = ''math'', s_semester = Some ''A'', s_sessions_per_week = Some 2\<rparr>"
  let ?T = "\<lparr>t_name = ''ann'', t_subjects = [''Art''], t_availability = Map.empty\<rparr>"
  let ?G = "TimetableGenerator [?T] [?S] [''r1''] [''9''] [''Mon''] []"
  let ?st = "init_run ?G (\<lambda>n. 0)"
  have nt: "filter (\<lambda>t. teaches t ?S) (teachers ?st) = []"
    by (simp add: init_run_def TimetableGenerator_def) code_simp
  have "schedule_subject ?st ?S =
        Some (if 0 < sessions_of ?S
              then ?st\<lparr>conflicts := conflicts ?st @
                     [Unplaced (semester_of ?S) [s_name ?S] (sessions_of ?S) []]\<rparr>
              else ?st)"
    using generate_never_raises [of ?G "\<lambda>n. 0" ?S ?st] nt by blast
  then show ?thesis
    by (simp add: sessions_of_def semester_of_def init_run_def)
qed

text \<open>
  C8. The loop of a subject counts its attempts in \<open>attempts_guard\<close>: from a state of a
  run it returns, after at most 300 attempts per required session, and after at most one
  attempt more than it placed sessions. It does not attempt once the sessions are placed
  or the counter has reached the bound, and an attempt that places nothing ends it at
  once. So every run of \<open>generate\<close> returns.
\<close>

theorem attempt_budget:
  "(good st \<and> s \<in> set (subjects st) \<longrightarrow>
      (\<exists>p g st'. place_sessions st s 0 0 = Some (p, g, st') \<and>
         0 \<le> g \<and> g \<le> max 0 (sessions_of s * 300) \<and> g \<le> p + 1 \<and> p \<le> max 0 (sessions_of s))) \<and>
   (\<not> (placed < sessions_of s \<and> guard < sessions_of s * 300) \<longrightarrow>
      place_sessions st s placed guard = Some (placed, guard, st)) \<and>
   (placed < sessions_of s \<and> guard < sessions_of s * 300 \<and> attempt st s = Some (False, st1) \<longrightarrow>
      place_sessions st s placed guard = Some (placed, guard + 1, st1)) \<and>
   (\<exists>tt cs. generate self r = Some (tt, cs))"
proof -
  have "\<exists>p g st'. place_sessions st s 0 0 = Some (p, g, st') \<and>
         0 \<le> g \<and> g \<le> max 0 (sessions_of s * 300) \<and> g \<le> p + 1 \<and> p \<le> max 0 (sessions_of s)"
    if "good st" "s \<in> set (subjects st)"
    using place_sessions_ok [OF that, of 0 0] by auto
  then show ?thesis
    using place_sessions_done [of placed s guard st] place_sessions_stop [of placed s guard st st1]
      generate_total [of self r]
    by blast
qed

theorem attempt_budget_witness:
  "map_option (\<lambda>(p, g, st'). (p, g))
     (place_sessions
       (init_run (TimetableGenerator
          [\<lparr>t_name = ''ann'', t_subjects = [''Math''], t_availability = Map.empty\<rparr>]
          [\<lparr>s_name = ''math'', s_semester = Some ''A'', s_sessions_per_week = Some 2\<rparr>]
          [''r1''] [''9''] [''Mon''] []) (\<lambda>n. 0))
       \<lparr>s_name = ''math'', s_semester = Some ''A'', s_sessions_per_week = Some 2\<rparr> 0 0) =
     Some (1, 2) \<and>
   (\<exists>p g st'. place_sessions
       (init_run (TimetableGenerator
          [\<lparr>t_name = ''ann'', t_subjects = [''Math''], t_availability = Map.empty\<rparr>]
          [\<lparr>s_name = ''math'', s_semester = Some ''A'', s_sessions_per_week = Some 2\<rparr>]
          [''r1''] [''9''] [''Mon''] []) (\<lambda>n. 0))
       \<lparr>s_name = ''math'', s_semester = Some ''A'', s_sessions_per_week = Some 2\<rparr> 0 0 =
         Some (p, g, st') \<and> g \<le> 600)"
proof -
  let ?S = "\<lparr>s_name = ''math'', s_semester = Some ''A'', s_sessions_per_week = Some 2\<rparr>"
  let ?T = "\<lparr>t_name = ''ann'', t_subjects = [''Math''], t_availability = Map.empty\<rparr>"
  let ?G = "TimetableGenerator [?T] [?S] [''r1''] [''9''] [''Mon''] []"
  let ?st = "init_run ?G (\<lambda>n. 0)"
  have s: "?S \<in> set (subjects ?st)" by (simp add: init_run_def TimetableGenerator_def)
  have "\<exists>p g st'. place_sessions ?st ?S 0 0 = Some (p, g, st') \<and>
         0 \<le> g \<and> g \<le> max 0 (sessions_of ?S * 300) \<and> g \<le> p + 1 \<and> p \<le> max 0 (sessions_of ?S)"
    using attempt_budget [of ?st ?S 0 0 ?st ?G "\<lambda>n. 0"] good_init_run [of ?G "\<lambda>n. 0"] s
    by blast
  then have b: "\<exists>p g st'. place_sessions ?st ?S 0 0 = Some (p, g, st') \<and> g \<le> 600"
    by (auto simp: sessions_of_def)
  have a: "map_option (\<lambda>(p, g, st'). (p, g)) (place_sessions ?st ?S 0 0) = Some (1, 2)"
    by code_simp
  from a b show ?thesis by blast
qed

text \<open>
  C9. On the grids of a run, \<open>suggest_alternatives\<close> returns the first pairs of the scan,
  days first and slots within a day, both in input order, that qualify: some teacher of the
  subject is free there and available, some classroom is free there, and the cohort of the
  subject is free there. It returns as many as the cap allows (five by default; one when
  the cap is below one), fewer when fewer qualify, written \<open>day @ slot\<close>. It returns a list
  only; the run is not among its results. For every pair that qualifies, some teacher and
  classroom of the request pass \<open>can_place\<close> there in the same state.
\<close>

theorem suggest_alternatives_scan:
  "(wf_run st \<and> s \<in> set (subjects st) \<longrightarrow>
      suggest_alternatives st s m =
        Some (take (max 1 (nat m)) (map suggestion (filter (qualifies st s) (day_slots st)))) \<and>
      suggest_alternatives st s 5 =
        Some (take 5 (map suggestion (filter (qualifies st s) (day_slots st))))) \<and>
   (qualifies st s (day, slot) \<longrightarrow>
      (\<exists>t\<in>set (teachers st). \<exists>c\<in>set (classrooms st).
          teaches t s \<and> can_place st s t c day slot = Some True))"
proof -
  have v: "\<exists>t\<in>set (teachers st). \<exists>c\<in>set (classrooms st).
          teaches t s \<and> can_place st s t c day slot = Some True"
    if "qualifies st s (day, slot)"
    using that by (auto simp: qualifies_def can_place_True_iff)
  have five: "max 1 (nat 5) = (5::nat)" by simp
  show ?thesis
    using suggest_alternatives_eq [of st s m] suggest_alternatives_eq [of st s 5] v
    unfolding five by blast
qed

theorem suggest_alternatives_scan_witness:
  "take 5 (map suggestion (filter
      (qualifies
        (init_run (TimetableGenerator
          [\<lparr>t_name = ''ann'', t_subjects = [''Math''], t_availability = [''Wed'' \<mapsto> []]\<rparr>]
          [\<lparr>s_name = ''math'', s_semester = Some ''A'', s_sessions_per_week = Some 2\<rparr>]
          [''r1''] [''9''] [''Mon'', ''Tue'', ''Wed''] []) (\<lambda>n. 0))
        \<lparr>s_name = ''math'', s_semester = Some ''A'', s_sessions_per_week = Some 2\<rparr>)
      (day_slots
        (init_run (TimetableGenerator
          [\<lparr>t_name = ''ann'', t_subjects = [''Math''], t_availability = [''Wed'' \<mapsto> []]\<rparr>]
          [\<lparr>s_name = ''math'', s_semester = Some ''A'', s_sessions_per_week = Some 2\<rparr>]
          [''r1''] [''9''] [''Mon'', ''Tue'', ''Wed''] []) (\<lambda>n. 0))))) =
     [''Mon @ 9'', ''Tue @ 9'']"
proof -
  let ?S = "\<lparr>s_name = ''math'', s_semester = Some ''A'', s_sessions_per_week = Some 2\<rparr>"
  let ?T = "\<lparr>t_name = ''ann'', t_subjects = [''Math''], t_availability = [''Wed'' \<mapsto> []]\<rparr>"
  let ?G = "TimetableGenerator [?T] [?S] [''r1''] [''9''] [''Mon'', ''Tue'', ''Wed''] []"
  let ?st = "init_run ?G (\<lambda>n. 0)"
  have s: "?S \<in> set (subjects ?st)" by (simp add: init_run_def TimetableGenerator_def)
  have wf: "wf_run ?st" using good_init_run [of ?G "\<lambda>n. 0"] by (simp add: good_def)
  have e: "suggest_alternatives ?st ?S 5 = Some [''Mon @ 9'', ''Tue @ 9'']"
    by code_simp
  have "suggest_alternatives ?st ?S 5 =
        Some (take 5 (map suggestion (filter (qualifies ?st ?S) (day_slots ?st))))"
    using suggest_alternatives_scan [of ?st ?S 5 "''Mon''" "''9''"] wf s by blast
  with e show ?thesis by simp
qed

text \<open>
  C10. A subject without the key \<open>sessions_per_week\<close> requires two sessions: the loop body
  treats it as it treats the same subject with the value 2.
\<close>

theorem default_sessions_per_week:
  "s_sessions_per_week s = None \<longrightarrow>
     sessions_of s = 2 \<and>
     schedule_subject st s = schedule_subject st (s\<lparr>s_sessions_per_week := Some 2\<rparr>)"
proof
  assume n: "s_sessions_per_week s = None"
  then have two: "sessions_of s = 2" by (simp add: sessions_of_def)
  then have "sessions_of (s\<lparr>s_sessions_per_week := Some 2\<rparr>) = sessions_of s"
    by (simp add: sessions_of_def)
  then show "sessions_of s = 2 \<and>
     schedule_subject st s = schedule_subject st (s\<lparr>s_sessions_per_week := Some 2\<rparr>)"
    using two schedule_subject_upd [where s = s and v = "Some 2" and st = st] by simp
qed

theorem default_sessions_per_week_witness:
  "sessions_of \<lparr>s_name = ''math'', s_semester = Some ''A'', s_sessions_per_week = None\<rparr> = 2 \<and>
   schedule_subject
     (init_run (TimetableGenerator
        [\<lparr>t_name = ''ann'', t_subjects = [''Math''], t_availability = Map.empty\<rparr>]
        [\<lparr>s_name = ''math'', s_semester = Some ''A'', s_sessions_per_week = None\<rparr>]
        [''r1''] [''9''] [''Mon'', ''Tue'', ''Wed''] []) (\<lambda>n. 0))
     \<lparr>s_name = ''math'', s_semester = Some ''A'', s_sessions_per_week = None\<rparr> =
   schedule_subject
     (init_run (TimetableGenerator
        [\<lparr>t_name = ''ann'', t_subjects = [''Math''], t_availability = Map.empty\<rparr>]
        [\<lparr>s_name = ''math'', s_semester = Some ''A'', s_sessions_per_week = None\<rparr>]
        [''r1''] [''9''] [''Mon'', ''Tue'', ''Wed''] []) (\<lambda>n. 0))
     \<lparr>s_name = ''math'', s_semester = Some ''A'', s_sessions_per_week = Some 2\<rparr> \<and>
   map_option (\<lambda>(tt, cs). (length tt, cs))
     (generate (TimetableGenerator
        [\<lparr>t_name = ''ann'', t_subjects = [''Math''], t_availability = Map.empty\<rparr>]
        [\<lparr>s_name = ''math'', s_semester = Some ''A'', s_sessions_per_week = None\<rparr>]
        [''r1''] [''9''] [''Mon'', ''Tue'', ''Wed''] []) (\<lambda>n. 0)) = Some (2, [])"
proof -
  let ?S = "\<lparr>s_name = ''math'', s_semester = Some ''A'', s_sessions_per_week = None\<rparr>"
  let ?T = "\<lparr>t_name = ''ann'', t_subjects = [''Math''], t_availability = Map.empty\<rparr>"
  let ?G = "TimetableGenerator [?T] [?S] [''r1''] [''9''] [''Mon'', ''Tue'', ''Wed''] []"
  have a: "sessions_of ?S = 2 \<and>
     schedule_subject (init_run ?G (\<lambda>n. 0)) ?S =
     schedule_subject (init_run ?G (\<lambda>n. 0)) (?S\<lparr>s_sessions_per_week := Some 2\<rparr>)"
    using default_sessions_per_week [of ?S "init_run ?G (\<lambda>n. 0)"] by simp
  have b: "map_option (\<lambda>(tt, cs). (length tt, cs)) (generate ?G (\<lambda>n. 0)) = Some (2, [])"
    by code_simp
  from a b show ?thesis by simp
qed

end
